theory Spec2Isabelle
  imports Main
begin

section \<open>JavaScript strings\<close>

text \<open>
  A JavaScript string is modelled as a \<^typ>\<open>string\<close>: a list of code units, each in the
  range 0..255. This is exact for the container text (\<^verbatim>\<open>buffer.toString("binary")\<close> maps
  every byte to the code unit of the same value) and for every string cut out of it.
  Decoded text (UTF-8, iconv) is produced by the host and is covered as far as its code
  units stay below 256. A buffer is the list of its bytes.
\<close>

definition is_space :: "char \<Rightarrow> bool" where
  \<comment> \<open>the class \<^verbatim>\<open>\s\<close> on code units below 256\<close>
  "is_space c = (c = CHR 0x09 \<or> c = CHR 0x0A \<or> c = CHR 0x0B \<or> c = CHR 0x0C \<or> c = CHR 0x0D
                 \<or> c = CHR 0x20 \<or> c = CHR 0xA0)"

definition is_line_term :: "char \<Rightarrow> bool" where
  \<comment> \<open>the characters that \<^verbatim>\<open>.\<close> does not match, on code units below 256\<close>
  "is_line_term c = (c = CHR 0x0A \<or> c = CHR 0x0D)"

definition is_quote :: "char \<Rightarrow> bool" where
  \<comment> \<open>the class \<^verbatim>\<open>['"]\<close>\<close>
  "is_quote c = (c = CHR 0x27 \<or> c = CHR 0x22)"

definition trim :: "string \<Rightarrow> string" where
  "trim s = rev (dropWhile is_space (rev (dropWhile is_space s)))"

definition ascii_lower :: "char \<Rightarrow> char" where
  \<comment> \<open>case folding of the \<^verbatim>\<open>i\<close> flag, as seen from an ASCII pattern character\<close>
  "ascii_lower c = (let n = (of_char c :: nat) in if 65 \<le> n \<and> n \<le> 90 then char_of (n + 32) else c)"

definition toLowerCase :: "string \<Rightarrow> string" where
  \<comment> \<open>\<^verbatim>\<open>String.prototype.toLowerCase\<close> on code units below 256\<close>
  "toLowerCase s = map (\<lambda>c. let n = (of_char c :: nat) in
       if (65 \<le> n \<and> n \<le> 90) \<or> (192 \<le> n \<and> n \<le> 222 \<and> n \<noteq> 215) then char_of (n + 32) else c) s"

definition startsWith :: "string \<Rightarrow> string \<Rightarrow> bool" where
  \<comment> \<open>\<^verbatim>\<open>s.startsWith(p)\<close>\<close>
  "startsWith s p = (take (length p) s = p)"

definition startsWith_ci :: "string \<Rightarrow> string \<Rightarrow> bool" where
  \<comment> \<open>\<^verbatim>\<open>/^p/i.test(s)\<close> for a literal lower-case ASCII pattern \<open>p\<close>\<close>
  "startsWith_ci s p = (map ascii_lower (take (length p) s) = p)"

definition truthy :: "string option \<Rightarrow> bool" where
  \<comment> \<open>a value that is \<^verbatim>\<open>null\<close> or a string, tested as a condition\<close>
  "truthy v = (case v of None \<Rightarrow> False | Some s \<Rightarrow> s \<noteq> [])"

definition str_includes :: "string \<Rightarrow> string \<Rightarrow> bool" where
  \<comment> \<open>\<^verbatim>\<open>s.includes(p)\<close>\<close>
  "str_includes s p = (\<exists>i \<in> set [0 ..< Suc (length s)]. take (length p) (drop i s) = p)"

definition stripQuotes :: "string \<Rightarrow> string" where
  \<comment> \<open>\<^verbatim>\<open>.replace(/^['"]|['"]$/g, "")\<close>: one leading and one trailing quote character\<close>
  "stripQuotes s =
     (let s1 = (case s of c # r \<Rightarrow> if is_quote c then r else s | [] \<Rightarrow> s)
      in if s1 \<noteq> [] \<and> is_quote (last s1) then butlast s1 else s1)"

subsection \<open>Base64\<close>

definition b64_alphabet :: string where
  "b64_alphabet = ''ABCDEFGHIJKLMNOPQRSTUVWXYZabcdefghijklmnopqrstuvwxyz0123456789+/''"

definition b64chr :: "nat \<Rightarrow> char" where
  "b64chr i = b64_alphabet ! (i mod 64)"

fun base64_encode :: "string \<Rightarrow> string" where
  \<comment> \<open>\<^verbatim>\<open>buf.toString("base64")\<close>\<close>
  "base64_encode (a # b # c # rest) =
     (let n = (of_char a :: nat) * 65536 + of_char b * 256 + of_char c
      in b64chr (n div 262144) # b64chr (n div 4096) # b64chr (n div 64) # b64chr n
         # base64_encode rest)"
| "base64_encode [a, b] =
     (let n = (of_char a :: nat) * 65536 + of_char b * 256
      in [b64chr (n div 262144), b64chr (n div 4096), b64chr (n div 64), CHR ''='']) "
| "base64_encode [a] =
     (let n = (of_char a :: nat) * 65536
      in [b64chr (n div 262144), b64chr (n div 4096), CHR ''='', CHR ''=''])"
| "base64_encode [] = []"

section \<open>The document tree\<close>

text \<open>
  The tree that cheerio builds from the markup: an element has a tag name, its attributes
  in order, and its children; every other node (text, comment, doctype) is a leaf. Tag and
  attribute names are lower case, as the HTML parser leaves them.
\<close>

datatype node =
    Element string "(string \<times> string) list" "node list"
  | Leaf string

section \<open>The host\<close>

text \<open>
  The program calls library functions that are not part of the repository. They are
  parameters of the model, collected in a record:
  \<^item> \<open>URL href base\<close> is \<^verbatim>\<open>new URL(href, base).toString()\<close>, \<open>None\<close> when the
    constructor throws;
  \<^item> \<open>mimeLookup\<close> is \<^verbatim>\<open>lookup\<close> of mime-types, \<open>None\<close> for \<^verbatim>\<open>false\<close>;
  \<^item> \<open>base64_decode\<close> is \<^verbatim>\<open>Buffer.from(s, "base64")\<close>, which returns a buffer for
    every string and never throws;
  \<^item> \<open>utf8_decode\<close> is \<^verbatim>\<open>buf.toString("utf-8")\<close>;
  \<^item> \<open>iconv_encodingExists\<close> and \<open>iconv_decode\<close> are those of iconv-lite, \<open>None\<close> when
    \<^verbatim>\<open>decode\<close> throws;
  \<^item> \<open>csstree_urls f css\<close> is css-tree's \<^verbatim>\<open>parse\<close>, a \<^verbatim>\<open>walk\<close> that replaces the
    value \<open>v\<close> of every \<^verbatim>\<open>Url\<close> node by \<open>f v\<close>, and \<^verbatim>\<open>generate\<close>;
  \<^item> \<open>cheerio_load\<close> is \<^verbatim>\<open>cheerio.load\<close>, giving the children of the document;
    \<open>cheerio_html\<close> serialises a list of nodes (\<^verbatim>\<open>$.html()\<close> of the document,
    \<^verbatim>\<open>$(el).html()\<close> of the children of an element); \<open>cheerio_parse ctx s\<close> parses the
    markup \<open>s\<close> inside an element with tag \<open>ctx\<close> (\<^verbatim>\<open>$(el).html(s)\<close>) or without a
    context (\<^verbatim>\<open>replaceWith(s)\<close>);
  \<^item> \<open>attr_equals name v lit\<close> is the test of the selector \<^verbatim>\<open>[name="lit"]\<close> on an attribute
    value \<open>v\<close> (the selector engine compares some attributes without regard to case).
\<close>

record host =
  URL :: "string \<Rightarrow> string \<Rightarrow> string option"
  mimeLookup :: "string \<Rightarrow> string option"
  base64_decode :: "string \<Rightarrow> string"
  utf8_decode :: "string \<Rightarrow> string"
  iconv_encodingExists :: "string \<Rightarrow> bool"
  iconv_decode :: "string \<Rightarrow> string \<Rightarrow> string option"
  csstree_urls :: "(string \<Rightarrow> string) \<Rightarrow> string \<Rightarrow> string"
  cheerio_load :: "string \<Rightarrow> node list"
  cheerio_html :: "node list \<Rightarrow> string"
  cheerio_parse :: "string option \<Rightarrow> string \<Rightarrow> node list"
  attr_equals :: "string \<Rightarrow> string \<Rightarrow> string \<Rightarrow> bool"

section \<open>Helpers of the converter\<close>

definition normKey :: "string \<Rightarrow> string" where
  \<comment> \<open>\<^verbatim>\<open>u.trim().replace(/[\r\n]+/g, "").replace(/\\/g, "/")\<close>\<close>
  "normKey u = map (\<lambda>c. if c = CHR 0x5C then CHR ''/'' else c)
                   (filter (\<lambda>c. c \<noteq> CHR 0x0D \<and> c \<noteq> CHR 0x0A) (trim u))"

definition normKey_opt :: "string option \<Rightarrow> string" where
  \<comment> \<open>\<^verbatim>\<open>normKey\<close> of a value that may be \<^verbatim>\<open>null\<close>: \<^verbatim>\<open>(u || "")\<close>\<close>
  "normKey_opt u = (case u of None \<Rightarrow> [] | Some s \<Rightarrow> normKey s)"

definition extractCidFromWeird :: "string \<Rightarrow> string option" where
  \<comment> \<open>\<^verbatim>\<open>/^cid!([^@]+)@/i\<close>: the text between \<^verbatim>\<open>cid!\<close> and the first \<^verbatim>\<open>@\<close>, not empty\<close>
  "extractCidFromWeird u =
     (if startsWith_ci u ''cid!'' then
        (let r = drop 4 u; t = takeWhile (\<lambda>c. c \<noteq> CHR ''@'') r
         in if t \<noteq> [] \<and> length t < length r then Some t else None)
      else None)"

definition normalizeWeirdUrl :: "string \<Rightarrow> string" where
  \<comment> \<open>\<^verbatim>\<open>/^(https?)!([^!]+)(?:!(.*))?$/i\<close>: scheme, host up to the next \<^verbatim>\<open>!\<close>, and a
      rest without line terminators whose \<^verbatim>\<open>!\<close> become \<^verbatim>\<open>/\<close>\<close>
  "normalizeWeirdUrl u =
     (let sch = (if startsWith_ci u ''https!'' then Some ''https''
                 else if startsWith_ci u ''http!'' then Some ''http'' else None)
      in case sch of
           None \<Rightarrow> u
         | Some scheme \<Rightarrow>
            (let r = drop (Suc (length scheme)) u;
                 hst = takeWhile (\<lambda>c. c \<noteq> CHR ''!'') r;
                 rest = drop (Suc (length hst)) r
             in if hst = [] \<or> (\<exists>c \<in> set rest. is_line_term c) then u
                else scheme @ ''://'' @ hst @ ''/'' @ map (\<lambda>c. if c = CHR ''!'' then CHR ''/'' else c) rest))"

definition weirdScheme :: "string \<Rightarrow> bool" where
  \<comment> \<open>\<^verbatim>\<open>/^(https?|http)!/i.test(u)\<close>\<close>
  "weirdScheme u = (startsWith_ci u ''http!'' \<or> startsWith_ci u ''https!'')"

definition toDataURI :: "string \<Rightarrow> string \<Rightarrow> string" where
  "toDataURI buf contentType =
     ''data:'' @ (if contentType = [] then ''application/octet-stream'' else contentType)
       @ '';base64,'' @ base64_encode buf"

definition resolveAgainst :: "host \<Rightarrow> string option \<Rightarrow> string \<Rightarrow> string" where
  "resolveAgainst h base href =
     (if href = [] then href
      else if startsWith_ci href ''data:'' \<or> startsWith_ci href ''cid:'' \<or> startsWith_ci href ''blob:''
              \<or> startsWith_ci href ''about:'' \<or> startsWith_ci href ''file:'' then href
      else if weirdScheme href then normalizeWeirdUrl href
      else if startsWith_ci href ''http://'' \<or> startsWith_ci href ''https://'' then href
      else (case base of
              None \<Rightarrow> href
            | Some b \<Rightarrow> if b = [] then href
                        else (case URL h href b of None \<Rightarrow> href | Some a \<Rightarrow> a)))"

section \<open>Parts and the part map\<close>

record part =
  headers :: "(string \<times> string) list"
  contentType :: string
  charset :: string
  contentLocation :: "string option"
  contentId :: "string option"
  buf :: string
  textDecoded :: "string option"  \<comment> \<open>the field \<^verbatim>\<open>text\<close>\<close>

record entry = part +
  dataURI :: string

type_synonym partMap = "string \<rightharpoonup> entry"

definition addKey :: "partMap \<Rightarrow> string \<Rightarrow> entry \<Rightarrow> partMap" where
  "addKey byKey key v = (if key = [] then byKey
                         else if byKey key = None then byKey(key \<mapsto> v) else byKey)"

definition partValue :: "host \<Rightarrow> part \<Rightarrow> entry" where
  \<comment> \<open>the object \<^verbatim>\<open>{ ...p, dataURI }\<close>. Every key of the part holds this one object, so
      the assignment to \<^verbatim>\<open>value.contentType\<close> at the end of the loop body shows in the map.\<close>
  "partValue h p =
     (let guessed = (case contentLocation p of
                       None \<Rightarrow> None
                     | Some l \<Rightarrow> if l = [] then None else mimeLookup h l);
          ct = (if contentType p \<noteq> [] then contentType p
                else case guessed of Some mt \<Rightarrow> mt | None \<Rightarrow> [])
      in part.extend p \<lparr> dataURI = toDataURI (buf p) ct \<rparr> \<lparr> contentType := ct \<rparr>)"

definition absKey :: "host \<Rightarrow> string option \<Rightarrow> part \<Rightarrow> string list" where
  \<comment> \<open>the key of the location resolved against \<^verbatim>\<open>docBase\<close>; none when \<^verbatim>\<open>new URL\<close> throws\<close>
  "absKey h docBase p =
     (case docBase of
        None \<Rightarrow> []
      | Some b \<Rightarrow>
         (case contentLocation p of
            None \<Rightarrow> []
          | Some l \<Rightarrow> if b \<noteq> [] \<and> l \<noteq> []
                      then (case URL h l b of None \<Rightarrow> [] | Some a \<Rightarrow> [normKey a]) else []))"

definition cidKeys :: "part \<Rightarrow> string list" where
  \<comment> \<open>the three keys of a content id: \<^verbatim>\<open>cid:\<close> form, bare token, Chrome placeholder\<close>
  "cidKeys p =
     (case contentId p of
        None \<Rightarrow> []
      | Some c \<Rightarrow> if c \<noteq> []
                  then [''cid:'' @ normKey c, normKey c, ''cid!'' @ normKey c @ ''@mhtml.blink'']
                  else [])"

definition partKeys :: "host \<Rightarrow> string option \<Rightarrow> part \<Rightarrow> string list" where
  \<comment> \<open>the keys that one round of the loop passes to \<^verbatim>\<open>addKey\<close>, in order\<close>
  "partKeys h docBase p = normKey_opt (contentLocation p) # absKey h docBase p @ cidKeys p"

definition addPart :: "host \<Rightarrow> string option \<Rightarrow> partMap \<Rightarrow> part \<Rightarrow> partMap" where
  \<comment> \<open>the body of the loop of \<^verbatim>\<open>buildPartMap\<close>\<close>
  "addPart h docBase byKey p =
     foldl (\<lambda>m key. addKey m key (partValue h p)) byKey (partKeys h docBase p)"

definition buildPartMap :: "host \<Rightarrow> part list \<Rightarrow> string option \<Rightarrow> partMap" where
  "buildPartMap h parts docBase = foldl (addPart h docBase) Map.empty parts"

definition registers :: "host \<Rightarrow> string option \<Rightarrow> string \<Rightarrow> part \<Rightarrow> bool" where
  \<comment> \<open>the part passes this key, not empty, to \<^verbatim>\<open>addKey\<close>\<close>
  "registers h docBase key p = (key \<noteq> [] \<and> key \<in> set (partKeys h docBase p))"

section \<open>A host for the examples\<close>

definition unbase64 :: "char \<Rightarrow> nat option" where
  "unbase64 c =
     (let n = (of_char c :: nat) in
      if 65 \<le> n \<and> n \<le> 90 then Some (n - 65)
      else if 97 \<le> n \<and> n \<le> 122 then Some (n - 71)
      else if 48 \<le> n \<and> n \<le> 57 then Some (n + 4)
      else if c = CHR ''+'' \<or> c = CHR ''-'' then Some 62
      else if c = CHR ''/'' \<or> c = CHR ''_'' then Some 63
      else None)"

fun b64_groups :: "nat list \<Rightarrow> string" where
  "b64_groups (a # b # c # d # rest) =
     (let n = a * 262144 + b * 4096 + c * 64 + d
      in char_of (n div 65536) # char_of (n div 256) # char_of n # b64_groups rest)"
| "b64_groups [a, b, c] =
     (let n = a * 262144 + b * 4096 + c * 64 in [char_of (n div 65536), char_of (n div 256)])"
| "b64_groups [a, b] = (let n = a * 262144 + b * 4096 in [char_of (n div 65536)])"
| "b64_groups [a] = []"
| "b64_groups [] = []"

definition node_base64_decode :: "string \<Rightarrow> string" where
  \<comment> \<open>the lenient decoder of the Node runtime: characters outside the alphabet are
      skipped, the first \<^verbatim>\<open>=\<close> ends the input, an incomplete last group gives the bytes
      it determines\<close>
  "node_base64_decode s =
     b64_groups (List.map_filter unbase64 (takeWhile (\<lambda>c. c \<noteq> CHR ''='') s))"

fun plain_html :: "node \<Rightarrow> string" where
  \<comment> \<open>serialisation of elements without attributes and of text; enough for the examples\<close>
  "plain_html (Leaf t) = t"
| "plain_html (Element tg as kids) =
     ''<'' @ tg @ ''>'' @ concat (map plain_html kids) @ ''</'' @ tg @ ''>''"

definition plain_host :: host where
  \<comment> \<open>The host at which the examples are evaluated. The examples stay on inputs for which
      these are the values the libraries return: ASCII text in utf-8 parts (decoding is the
      identity), no base URL (no URL is constructed), a content type on every part (no
      MIME lookup), style sheets in css-tree's output form without \<^verbatim>\<open>url()\<close> tokens,
      document trees given as such, text as the content of a \<^verbatim>\<open>style\<close> element, literal
      attribute values in lower case.\<close>
  "plain_host = \<lparr> URL = (\<lambda>href base. None),
                   mimeLookup = (\<lambda>path. None),
                   base64_decode = node_base64_decode,
                   utf8_decode = (\<lambda>b. b),
                   iconv_encodingExists = (\<lambda>cs. False),
                   iconv_decode = (\<lambda>b cs. None),
                   csstree_urls = (\<lambda>f css. css),
                   cheerio_load = (\<lambda>html. [Leaf html]),
                   cheerio_html = (\<lambda>ns. concat (map plain_html ns)),
                   cheerio_parse = (\<lambda>ctx s.
                     if s = [] then []
                     else if ctx = None \<and> take 7 s = ''<style>'' \<and> take 8 (rev s) = rev ''</style>''
                     then [Element ''style'' []
                             (if length s = 15 then [] else [Leaf (take (length s - 15) (drop 7 s))])]
                     else [Leaf s]),
                   attr_equals = (\<lambda>name v lit. v = lit) \<rparr>"

definition mkPart :: "string \<Rightarrow> string option \<Rightarrow> string option \<Rightarrow> string \<Rightarrow> part" where
  \<comment> \<open>a part as \<^verbatim>\<open>parseMHTML\<close> builds it from a utf-8 body: content type, location, id, bytes\<close>
  "mkPart ct loc cid b =
     \<lparr> headers = [], contentType = ct, charset = ''utf-8'', contentLocation = loc,
       contentId = cid, buf = b,
       textDecoded = (if startsWith_ci ct ''text/'' then Some b else None) \<rparr>"

section \<open>Parsing the container\<close>

datatype error =
    NoHeaderSection  \<comment> \<open>\<^verbatim>\<open>Invalid MHTML: no header section\<close>\<close>
  | NoBoundary       \<comment> \<open>\<^verbatim>\<open>Invalid MHTML: no boundary\<close>\<close>
  | NoHtmlPart       \<comment> \<open>\<^verbatim>\<open>No text/html part found in ...\<close>\<close>

definition CRLFCRLF :: string where
  "CRLFCRLF = [CHR 0x0D, CHR 0x0A, CHR 0x0D, CHR 0x0A]"

fun indexOf :: "string \<Rightarrow> string \<Rightarrow> nat option" where
  \<comment> \<open>\<^verbatim>\<open>s.indexOf(p)\<close>, \<open>None\<close> for \<^verbatim>\<open>-1\<close>\<close>
  "indexOf [] p = (if p = [] then Some 0 else None)"
| "indexOf (c # s) p =
     (if take (length p) (c # s) = p then Some 0 else map_option Suc (indexOf s p))"

fun split_from :: "string \<Rightarrow> string \<Rightarrow> string \<Rightarrow> string list" where
  \<comment> \<open>\<^verbatim>\<open>s.split(d)\<close> for a separator that is not empty; \<open>acc\<close> is the piece read so far, reversed\<close>
  "split_from d acc [] = [rev acc]"
| "split_from d acc (c # s) =
     (if d \<noteq> [] \<and> take (length d) (c # s) = d
      then rev acc # split_from d [] (drop (length d) (c # s))
      else split_from d (c # acc) s)"

definition split :: "string \<Rightarrow> string \<Rightarrow> string list" where
  "split s d = split_from d [] s"

fun split_lines_from :: "string \<Rightarrow> string \<Rightarrow> string list" where
  \<comment> \<open>\<^verbatim>\<open>s.split(/\r?\n/)\<close>\<close>
  "split_lines_from acc [] = [rev acc]"
| "split_lines_from acc [c] =
     (if c = CHR 0x0A then [rev acc, []] else [rev (c # acc)])"
| "split_lines_from acc (c # d # s) =
     (if c = CHR 0x0A then rev acc # split_lines_from [] (d # s)
      else if c = CHR 0x0D \<and> d = CHR 0x0A then rev acc # split_lines_from [] s
      else split_lines_from (c # acc) (d # s))"

definition header_line :: "string \<Rightarrow> (string \<times> string) option" where
  \<comment> \<open>\<^verbatim>\<open>/^([^:]+):\s*(.*)$/\<close>: the name before the first colon, not empty, and the value after
      the white space, which must be free of line terminators\<close>
  "header_line line =
     (let name = takeWhile (\<lambda>c. c \<noteq> CHR '':'') line in
      if name = [] \<or> length name = length line then None
      else (let v = dropWhile is_space (drop (Suc (length name)) line)
            in if list_ex is_line_term v then None else Some (name, v)))"

fun set_header :: "(string \<times> string) list \<Rightarrow> string \<Rightarrow> string \<Rightarrow> (string \<times> string) list" where
  \<comment> \<open>\<^verbatim>\<open>out[name] = v\<close> on an object: the key keeps its place, a new key goes last\<close>
  "set_header [] name v = [(name, v)]"
| "set_header ((k, w) # out) name v =
     (if k = name then (k, v) # out else (k, w) # set_header out name v)"

definition get_header :: "(string \<times> string) list \<Rightarrow> string \<Rightarrow> string option" where
  "get_header out name = map_of out name"

definition assign_header :: "(string \<times> string) list \<Rightarrow> string \<Rightarrow> string \<Rightarrow> (string \<times> string) list" where
  \<comment> \<open>\<^verbatim>\<open>out[name] = v\<close> on the plain object \<^verbatim>\<open>out\<close>. The name \<^verbatim>\<open>__proto__\<close> is the accessor that
      the object inherits: assigning a string to it stores nothing.\<close>
  "assign_header out name v = (if name = ''__proto__'' then out else set_header out name v)"

definition parseHeaders_step ::
  "(string \<times> string) list \<times> string option \<Rightarrow> string \<Rightarrow> (string \<times> string) list \<times> string option" where
  \<comment> \<open>one round of the loop; the state is \<^verbatim>\<open>out\<close> and the name in \<^verbatim>\<open>cur\<close>\<close>
  "parseHeaders_step st line =
     (case st of (out, cur) \<Rightarrow>
        if line \<noteq> [] \<and> is_space (hd line) \<and> cur \<noteq> None then
          (case cur of
             Some name \<Rightarrow>
               (assign_header out name
                  ((case get_header out name of Some w \<Rightarrow> w | None \<Rightarrow> []) @ '' '' @ trim line), cur)
           | None \<Rightarrow> (out, cur))
        else
          (case header_line line of
             None \<Rightarrow> (out, cur)
           | Some (n, v) \<Rightarrow> (assign_header out (toLowerCase n) v, Some (toLowerCase n))))"

definition parseHeaders :: "string \<Rightarrow> (string \<times> string) list" where
  "parseHeaders block = fst (foldl parseHeaders_step ([], None) (split_lines_from [] block))"

definition header_or :: "(string \<times> string) list \<Rightarrow> string \<Rightarrow> string \<Rightarrow> string" where
  \<comment> \<open>\<^verbatim>\<open>ph[name] || dflt\<close>\<close>
  "header_or ph name dflt =
     (case get_header ph name of None \<Rightarrow> dflt | Some v \<Rightarrow> if v = [] then dflt else v)"

definition charset_value :: "string \<Rightarrow> string option" where
  \<comment> \<open>\<^verbatim>\<open>("?)([^";]+)\1\<close> at the start of \<open>t\<close>\<close>
  "charset_value t =
     (case t of
        [] \<Rightarrow> None
      | c # t' \<Rightarrow>
          if c = CHR 0x22 then
            (let run = takeWhile (\<lambda>x. x \<noteq> CHR 0x22 \<and> x \<noteq> CHR '';'') t'
             in if run \<noteq> [] \<and> take 1 (drop (length run) t') = [CHR 0x22] then Some run else None)
          else
            (let run = takeWhile (\<lambda>x. x \<noteq> CHR 0x22 \<and> x \<noteq> CHR '';'') t
             in if run = [] then None else Some run))"

definition charset_at :: "string \<Rightarrow> string option" where
  \<comment> \<open>\<^verbatim>\<open>\s*=\s*("?)([^";]+)\1\<close> after the word \<^verbatim>\<open>charset\<close>. When the value does not match
      after all the white space, the engine gives one white-space character back and the
      second group is that character.\<close>
  "charset_at r =
     (case dropWhile is_space r of
        [] \<Rightarrow> None
      | e # r2 \<Rightarrow>
          if e \<noteq> CHR ''='' then None
          else (case charset_value (dropWhile is_space r2) of
                  Some v \<Rightarrow> Some v
                | None \<Rightarrow> (let ws = takeWhile is_space r2
                           in if ws = [] then None else Some [last ws])))"

fun find_charset :: "string \<Rightarrow> string option" where
  "find_charset [] = None"
| "find_charset (c # s) =
     (if startsWith_ci (c # s) ''charset'' then
        (case charset_at (drop 7 (c # s)) of Some v \<Rightarrow> Some v | None \<Rightarrow> find_charset s)
      else find_charset s)"

definition getCharset :: "string \<Rightarrow> string" where
  "getCharset ct = (case find_charset ct of Some v \<Rightarrow> toLowerCase (trim v) | None \<Rightarrow> ''utf-8'')"

definition boundary_at :: "string \<Rightarrow> string option" where
  \<comment> \<open>\<^verbatim>\<open>"?([^"]+)"?\<close> after \<^verbatim>\<open>boundary=\<close>\<close>
  "boundary_at r =
     (let r' = (case r of c # t \<Rightarrow> if c = CHR 0x22 then t else r | [] \<Rightarrow> r);
          run = takeWhile (\<lambda>x. x \<noteq> CHR 0x22) r'
      in if run = [] then None else Some run)"

fun find_boundary :: "string \<Rightarrow> string option" where
  \<comment> \<open>\<^verbatim>\<open>/boundary="?([^"]+)"?/i.exec(ctype)\<close>: the first group of the leftmost match\<close>
  "find_boundary [] = None"
| "find_boundary (c # s) =
     (if startsWith_ci (c # s) ''boundary='' then
        (case boundary_at (drop 9 (c # s)) of Some b \<Rightarrow> Some b | None \<Rightarrow> find_boundary s)
      else find_boundary s)"

fun qp_soft :: "string \<Rightarrow> string" where
  \<comment> \<open>\<^verbatim>\<open>.replace(/=\r?\n/g, "")\<close>\<close>
  "qp_soft (a # b # c # s) =
     (if a = CHR ''='' \<and> b = CHR 0x0D \<and> c = CHR 0x0A then qp_soft s
      else if a = CHR ''='' \<and> b = CHR 0x0A then qp_soft (c # s)
      else a # qp_soft (b # c # s))"
| "qp_soft [a, b] = (if a = CHR ''='' \<and> b = CHR 0x0A then [] else [a, b])"
| "qp_soft s = s"

definition hexval :: "char \<Rightarrow> nat option" where
  "hexval c =
     (let n = (of_char c :: nat) in
      if 48 \<le> n \<and> n \<le> 57 then Some (n - 48)
      else if 65 \<le> n \<and> n \<le> 70 then Some (n - 55)
      else if 97 \<le> n \<and> n \<le> 102 then Some (n - 87)
      else None)"

fun qp_hex :: "string \<Rightarrow> string" where
  \<comment> \<open>\<^verbatim>\<open>.replace(/=([A-Fa-f0-9]{2})/g, ...)\<close>\<close>
  "qp_hex (a # b # c # s) =
     (case (if a = CHR ''='' then hexval b else None, hexval c) of
        (Some x, Some y) \<Rightarrow> char_of (16 * x + y) # qp_hex s
      | _ \<Rightarrow> a # qp_hex (b # c # s))"
| "qp_hex s = s"

definition decodeQP :: "string \<Rightarrow> string" where
  "decodeQP str = qp_hex (qp_soft str)"

definition strip_crlf :: "string \<Rightarrow> string" where
  \<comment> \<open>\<^verbatim>\<open>raw.replace(/^\r?\n/, "")\<close>\<close>
  "strip_crlf raw =
     (case raw of
        c # r \<Rightarrow> if c = CHR 0x0A then r
                 else if c = CHR 0x0D \<and> take 1 r = [CHR 0x0A] then drop 1 r else raw
      | [] \<Rightarrow> raw)"

definition strip_end_marker :: "string \<Rightarrow> string" where
  \<comment> \<open>\<^verbatim>\<open>if (/--\s*$/.test(raw)) raw = raw.replace(/--\s*$/, "")\<close>\<close>
  "strip_end_marker raw =
     (let t = rev (dropWhile is_space (rev raw))
      in if take 2 (rev t) = ''--'' then rev (drop 2 (rev t)) else raw)"

definition strip_angles :: "string \<Rightarrow> string" where
  \<comment> \<open>\<^verbatim>\<open>cid.replace(/^<|>$/g, "")\<close>\<close>
  "strip_angles s =
     (let s1 = (case s of c # r \<Rightarrow> if c = CHR ''<'' then r else s | [] \<Rightarrow> s)
      in if s1 \<noteq> [] \<and> last s1 = CHR ''>'' then butlast s1 else s1)"

definition decodeBody :: "host \<Rightarrow> string \<Rightarrow> string \<Rightarrow> string" where
  \<comment> \<open>the choice of \<^verbatim>\<open>buf\<close> by the transfer encoding\<close>
  "decodeBody h enc bodyBin =
     (if str_includes enc ''base64'' then base64_decode h (filter (\<lambda>c. \<not> is_space c) bodyBin)
      else if str_includes enc ''quoted-printable'' then decodeQP bodyBin
      else bodyBin)"

definition decodeText :: "host \<Rightarrow> string \<Rightarrow> string \<Rightarrow> string \<Rightarrow> string option" where
  \<comment> \<open>\<^verbatim>\<open>textDecoded\<close>: \<^verbatim>\<open>null\<close> unless the content type starts with \<^verbatim>\<open>text/\<close>; a throwing
      \<^verbatim>\<open>iconv.decode\<close> falls back to UTF-8\<close>
  "decodeText h ct cs b =
     (if startsWith_ci ct ''text/'' then
        Some (if cs \<noteq> [] \<and> cs \<noteq> ''utf-8'' \<and> iconv_encodingExists h cs
              then (case iconv_decode h b cs of Some t \<Rightarrow> t | None \<Rightarrow> utf8_decode h b)
              else utf8_decode h b)
      else None)"

definition parsePart :: "host \<Rightarrow> string \<Rightarrow> part option" where
  \<comment> \<open>the body of the loop of \<^verbatim>\<open>parseMHTML\<close>; \<open>None\<close> is \<^verbatim>\<open>continue\<close>\<close>
  "parsePart h raw0 =
     (let raw = strip_end_marker (strip_crlf raw0) in
      if trim raw = [] then None
      else (case indexOf raw CRLFCRLF of
              None \<Rightarrow> None
            | Some idx \<Rightarrow>
               (let headerBlock = take idx raw;
                    bodyBin = drop (idx + 4) raw;
                    ph = parseHeaders headerBlock;
                    enc = toLowerCase (header_or ph ''content-transfer-encoding'' []);
                    ct = header_or ph ''content-type'' ''application/octet-stream'';
                    cs = getCharset ct;
                    b = decodeBody h enc bodyBin;
                    loc = header_or ph ''content-location'' [];
                    cid = strip_angles (header_or ph ''content-id'' [])
                in Some \<lparr> headers = ph,
                          contentType = toLowerCase (trim (takeWhile (\<lambda>c. c \<noteq> CHR '';'') ct)),
                          charset = cs,
                          contentLocation = (if loc = [] then None else Some (normKey loc)),
                          contentId = (if cid = [] then None else Some (normKey cid)),
                          buf = b,
                          textDecoded = decodeText h ct cs b \<rparr>)))"

definition outerContentType :: "string \<Rightarrow> string option" where
  \<comment> \<open>the value of \<^verbatim>\<open>ctype\<close> in \<^verbatim>\<open>parseMHTML\<close>; \<open>None\<close> when \<^verbatim>\<open>headerEnd < 0\<close>\<close>
  "outerContentType buffer =
     (case indexOf buffer CRLFCRLF of
        None \<Rightarrow> None
      | Some headerEnd \<Rightarrow> Some (header_or (parseHeaders (take headerEnd buffer)) ''content-type'' []))"

definition parseMHTML :: "host \<Rightarrow> string \<Rightarrow> error + part list" where
  "parseMHTML h buffer =
     (case outerContentType buffer of
        None \<Rightarrow> Inl NoHeaderSection
      | Some ctype \<Rightarrow>
         (case find_boundary ctype of
            None \<Rightarrow> Inl NoBoundary
          | Some boundary \<Rightarrow>
              Inr (List.map_filter (parsePart h) (drop 1 (split buffer (''--'' @ boundary))))))"

definition has_header_block :: "string \<Rightarrow> bool" where
  \<comment> \<open>the text holds a blank line in the strict sense: the four bytes CR LF CR LF\<close>
  "has_header_block buffer = (\<exists>pre post. buffer = pre @ CRLFCRLF @ post)"

definition splits_at_blank_line :: "string \<Rightarrow> string \<Rightarrow> string \<Rightarrow> bool" where
  \<comment> \<open>\<open>hdr\<close> is the text before the first CR LF CR LF of \<open>s\<close>, and \<open>rest\<close> the text after it\<close>
  "splits_at_blank_line s hdr rest =
     (s = hdr @ CRLFCRLF @ rest \<and> \<not> has_header_block (hdr @ take 3 CRLFCRLF))"

subsection \<open>Headers, as the specification reads them\<close>

text \<open>
  The specification describes the headers of a block as a mapping from the lower-cased
  name to the unfolded value: a line that begins with white space continues the header
  before it and is joined to its value with a single space. The functions below read a
  block in that way, line by line, into the list of its headers with their unfolded
  values; of several headers with one name the last counts. They are compared with
  \<^verbatim>\<open>parseHeaders\<close>, which builds an object by assignments.
\<close>

fun unfold_from :: "string \<Rightarrow> string \<Rightarrow> string list \<Rightarrow> (string \<times> string) list" where
  \<comment> \<open>the headers of the lines that follow a header \<open>name\<close> whose value so far is \<open>v\<close>\<close>
  "unfold_from name v [] = [(name, v)]"
| "unfold_from name v (l # ls) =
     (if l \<noteq> [] \<and> is_space (hd l) then unfold_from name (v @ '' '' @ trim l) ls
      else (case header_line l of
              None \<Rightarrow> unfold_from name v ls
            | Some (n, w) \<Rightarrow> (name, v) # unfold_from (toLowerCase n) w ls))"

fun unfolded_headers :: "string list \<Rightarrow> (string \<times> string) list" where
  \<comment> \<open>the headers of a list of lines, each with its unfolded value, in the order of the text\<close>
  "unfolded_headers [] = []"
| "unfolded_headers (l # ls) =
     (case header_line l of
        None \<Rightarrow> unfolded_headers ls
      | Some (n, w) \<Rightarrow> unfold_from (toLowerCase n) w ls)"

definition header_value :: "string \<Rightarrow> string \<Rightarrow> string option" where
  \<comment> \<open>the unfolded value of the last header with that name in the block\<close>
  "header_value block name = map_of (rev (unfolded_headers (split_lines_from [] block))) name"

definition value_or_empty :: "string option \<Rightarrow> string" where
  \<comment> \<open>a header that is absent counts as the empty text\<close>
  "value_or_empty v = (case v of None \<Rightarrow> [] | Some w \<Rightarrow> w)"

definition has_boundary_param :: "string \<Rightarrow> bool" where
  \<comment> \<open>the content type has a boundary parameter that can be parsed: the word
      \<^verbatim>\<open>boundary=\<close> in any case, an optional quotation mark, and at least one character that is
      not a quotation mark\<close>
  "has_boundary_param ctype =
     (\<exists>pre kw q c rest. ctype = pre @ kw @ q @ c # rest \<and> map ascii_lower kw = ''boundary=''
        \<and> (q = [] \<or> q = [CHR 0x22]) \<and> c \<noteq> CHR 0x22)"

definition boundary_here :: "string \<Rightarrow> bool" where
  \<comment> \<open>a boundary parameter that can be parsed starts the text\<close>
  "boundary_here s = (\<exists>kw q c rest. s = kw @ q @ c # rest \<and> map ascii_lower kw = ''boundary=''
        \<and> (q = [] \<or> q = [CHR 0x22]) \<and> c \<noteq> CHR 0x22)"

definition CRLF :: string where
  "CRLF = [CHR 0x0D, CHR 0x0A]"

definition container_two_html :: string where
  \<comment> \<open>an example: two \<^verbatim>\<open>text/html\<close> parts and an image in base64\<close>
  "container_two_html =
     ''Content-Type: multipart/related; boundary='' @ [CHR 0x22] @ ''XYZ'' @ [CHR 0x22] @ CRLF @ CRLF
     @ ''--XYZ'' @ CRLF @ ''Content-Type: text/html'' @ CRLF @ CRLF @ ''<p>a</p>'' @ CRLF
     @ ''--XYZ'' @ CRLF @ ''Content-Type: text/html'' @ CRLF @ ''Content-Location: b.html'' @ CRLF
     @ CRLF @ ''<p>bb</p>'' @ CRLF
     @ ''--XYZ'' @ CRLF @ ''Content-Type: image/png'' @ CRLF @ ''Content-Transfer-Encoding: base64''
     @ CRLF @ ''Content-ID: <img1>'' @ CRLF @ CRLF @ ''TW'' @ CRLF @ ''Fu'' @ CRLF
     @ ''--XYZ--'' @ CRLF"

definition container_bad_base64 :: string where
  \<comment> \<open>an example: one part that declares base64 and whose body is outside the alphabet\<close>
  "container_bad_base64 =
     ''Content-Type: multipart/related; boundary='' @ [CHR 0x22] @ ''XYZ'' @ [CHR 0x22] @ CRLF @ CRLF
     @ ''--XYZ'' @ CRLF @ ''Content-Type: image/png'' @ CRLF @ ''Content-Transfer-Encoding: base64''
     @ CRLF @ ''Content-ID: <img1>'' @ CRLF @ CRLF @ ''!!!!'' @ CRLF
     @ ''--XYZ--'' @ CRLF"

definition container_no_boundary :: string where
  \<comment> \<open>an example: the outer content type has no boundary parameter\<close>
  "container_no_boundary =
     ''Content-Type: multipart/related'' @ CRLF @ CRLF @ ''--XYZ'' @ CRLF
     @ ''Content-Type: text/html'' @ CRLF @ CRLF @ ''<p>a</p>'' @ CRLF @ ''--XYZ--'' @ CRLF"

definition LF :: string where
  "LF = [CHR 0x0A]"

definition container_lf :: string where
  \<comment> \<open>an example: a container whose lines end in a bare LF\<close>
  "container_lf =
     ''Content-Type: multipart/related; boundary='' @ [CHR 0x22] @ ''XYZ'' @ [CHR 0x22] @ LF @ LF
     @ ''--XYZ'' @ LF @ ''Content-Type: text/html'' @ LF @ LF @ ''<p>a</p>'' @ LF
     @ ''--XYZ--'' @ LF"

definition container_lf_outer :: string where
  \<comment> \<open>an example: the outer header ends in LF LF, the part has CR LF line ends\<close>
  "container_lf_outer =
     ''Content-Type: multipart/related; boundary='' @ [CHR 0x22] @ ''XYZ'' @ [CHR 0x22] @ LF @ LF
     @ ''--XYZ'' @ CRLF @ ''Content-Type: text/html'' @ CRLF @ CRLF @ ''<p>a</p>'' @ CRLF
     @ ''--XYZ--'' @ CRLF"

definition container_late_blank :: string where
  \<comment> \<open>an example: the outer header ends in LF LF, and the first CR LF CR LF of the text
      comes after the first boundary line, at the end of the headers of the part\<close>
  "container_late_blank =
     ''Content-Type: multipart/related; boundary='' @ [CHR 0x22] @ ''XYZ'' @ [CHR 0x22] @ LF @ LF
     @ ''--XYZ'' @ CRLF @ ''X-Note: n'' @ CRLF @ CRLF @ ''<p>a</p>'' @ CRLF
     @ ''--XYZ--'' @ CRLF"




definition no_boundary_header :: string where
  \<comment> \<open>the outer header of \<open>container_no_boundary\<close>\<close>
  "no_boundary_header = ''Content-Type: multipart/related''"

section \<open>Choosing the root document\<close>

fun js_insert :: "('a \<Rightarrow> 'a \<Rightarrow> int) \<Rightarrow> 'a \<Rightarrow> 'a list \<Rightarrow> 'a list" where
  "js_insert cmp x [] = [x]"
| "js_insert cmp x (y # ys) = (if cmp x y \<le> 0 then x # y # ys else y # js_insert cmp x ys)"

fun js_sort :: "('a \<Rightarrow> 'a \<Rightarrow> int) \<Rightarrow> 'a list \<Rightarrow> 'a list" where
  \<comment> \<open>\<^verbatim>\<open>Array.prototype.sort\<close> with a comparator: a stable sort, here by insertion (of two
      elements that compare equal the one that came first stays first)\<close>
  "js_sort cmp [] = []"
| "js_sort cmp (x # xs) = js_insert cmp x (js_sort cmp xs)"

definition isHtmlPart :: "part \<Rightarrow> bool" where
  \<comment> \<open>\<^verbatim>\<open>(p.contentType || "").startsWith("text/html")\<close>\<close>
  "isHtmlPart p = startsWith (contentType p) ''text/html''"

definition selectRoot :: "part list \<Rightarrow> error + part" where
  "selectRoot parts =
     (case js_sort (\<lambda>a b. int (length (buf b)) - int (length (buf a))) (filter isHtmlPart parts) of
        [] \<Rightarrow> Inl NoHtmlPart
      | rootPart # rest \<Rightarrow> Inr rootPart)"

section \<open>Rewriting style sheets\<close>

definition orElse :: "'a option \<Rightarrow> 'a option \<Rightarrow> 'a option" where
  \<comment> \<open>\<^verbatim>\<open>a || b\<close> on results of \<^verbatim>\<open>partMap.get\<close>: an entry is an object, so it is truthy\<close>
  "orElse a b = (case a of Some x \<Rightarrow> Some x | None \<Rightarrow> b)"

definition unweird :: "string \<Rightarrow> string" where
  \<comment> \<open>\<^verbatim>\<open>if (/^(https?|http)!/i.test(u)) u = normalizeWeirdUrl(u)\<close>\<close>
  "unweird u = (if weirdScheme u then normalizeWeirdUrl u else u)"

definition sheetText :: "host \<Rightarrow> 'a part_scheme \<Rightarrow> string" where
  \<comment> \<open>\<^verbatim>\<open>hit.text || hit.buf.toString("utf-8")\<close>\<close>
  "sheetText h e =
     (case textDecoded e of
        Some t \<Rightarrow> if t = [] then utf8_decode h (buf e) else t
      | None \<Rightarrow> utf8_decode h (buf e))"

definition hitBase :: "entry \<Rightarrow> string option \<Rightarrow> string option" where
  \<comment> \<open>\<^verbatim>\<open>hit.contentLocation || baseHref\<close>\<close>
  "hitBase e baseHref = (if truthy (contentLocation e) then contentLocation e else baseHref)"

definition url_hit :: "host \<Rightarrow> string option \<Rightarrow> partMap \<Rightarrow> string \<Rightarrow> entry option" where
  \<comment> \<open>the look-ups for the argument of \<^verbatim>\<open>url(...)\<close>; \<open>raw\<close> is the value without quotes and
      after \<^verbatim>\<open>normalizeWeirdUrl\<close>\<close>
  "url_hit h baseHref pm raw =
     orElse (pm (normKey (resolveAgainst h baseHref raw)))
       (orElse (pm (''cid:'' @ raw))
         (orElse (pm raw)
           (orElse (if startsWith raw ''cid:'' then pm (normKey raw) else None)
                   (if startsWith raw ''cid!'' then pm raw else None))))"

definition url_value :: "host \<Rightarrow> string option \<Rightarrow> partMap \<Rightarrow> string \<Rightarrow> string" where
  \<comment> \<open>the callback of \<^verbatim>\<open>csstree.walk\<close> in \<^verbatim>\<open>inlineCssUrlsWithMap\<close>: the new value of a
      \<^verbatim>\<open>Url\<close> node\<close>
  "url_value h baseHref pm v =
     (if v = [] then v
      else if startsWith (stripQuotes v) ''data:'' then v
      else (case url_hit h baseHref pm (unweird (stripQuotes v)) of
              Some e \<Rightarrow> dataURI e
            | None \<Rightarrow> v))"

definition inlineCssUrlsWithMap :: "host \<Rightarrow> string \<Rightarrow> string option \<Rightarrow> partMap \<Rightarrow> string" where
  "inlineCssUrlsWithMap h css baseHref pm =
     (if css = [] then css else csstree_urls h (url_value h baseHref pm) css)"

definition import_tail :: "string \<Rightarrow> nat option" where
  \<comment> \<open>\<^verbatim>\<open>\s*([^;]*);\<close>: the number of characters up to and with the first semicolon\<close>
  "import_tail r =
     (let t = takeWhile (\<lambda>c. c \<noteq> CHR '';'') r
      in if length t < length r then Some (Suc (length t)) else None)"

definition import_target :: "string \<Rightarrow> (nat \<times> string) option" where
  \<comment> \<open>\<^verbatim>\<open>(?:url\(\s*([^)\s]+)\s*\)|(['"])(.*?)\2)\<close> at the start of \<open>r\<close>: the number of
      characters matched and the text of group 1 or group 3\<close>
  "import_target r =
     (if startsWith_ci r ''url('' then
        (let r2 = dropWhile is_space (drop 4 r);
             u = takeWhile (\<lambda>c. c \<noteq> CHR '')'' \<and> \<not> is_space c) r2;
             r3 = dropWhile is_space (drop (length u) r2)
         in if u \<noteq> [] \<and> take 1 r3 = '')'' then Some (length r - length r3 + 1, u) else None)
      else
        (case r of
           [] \<Rightarrow> None
         | q # r2 \<Rightarrow>
             if is_quote q then
               (let body = takeWhile (\<lambda>c. c \<noteq> q \<and> \<not> is_line_term c) r2
                in if take 1 (drop (length body) r2) = [q] then Some (length body + 2, body) else None)
             else None))"

definition import_at :: "string \<Rightarrow> (nat \<times> string) option" where
  \<comment> \<open>the regular expression \<^verbatim>\<open>importRe\<close> matched at the start of \<open>s\<close>: the length of the
      match and \<^verbatim>\<open>m[1] || m[3] || ""\<close>\<close>
  "import_at s =
     (if startsWith_ci s ''@import'' then
        (let r = drop 7 s; ws = takeWhile is_space r; r1 = dropWhile is_space r in
         if ws = [] then None
         else (case import_target r1 of
                 None \<Rightarrow> None
               | Some (k, u) \<Rightarrow>
                   (case import_tail (drop k r1) of
                      None \<Rightarrow> None
                    | Some t \<Rightarrow> Some (7 + length ws + k + t, u))))
      else None)"

fun find_import :: "string \<Rightarrow> (nat \<times> nat \<times> string) option" where
  \<comment> \<open>\<^verbatim>\<open>importRe.exec(css)\<close> on the text from \<^verbatim>\<open>lastIndex\<close> on: the offset of the leftmost
      match, its length, and \<^verbatim>\<open>m[1] || m[3] || ""\<close>\<close>
  "find_import [] = None"
| "find_import (c # s) =
     (case import_at (c # s) of
        Some (n, u) \<Rightarrow> Some (0, n, u)
      | None \<Rightarrow> (case find_import s of
                   None \<Rightarrow> None
                 | Some (i, n, u) \<Rightarrow> Some (Suc i, n, u)))"

definition import_hit :: "host \<Rightarrow> partMap \<Rightarrow> string option \<Rightarrow> string \<Rightarrow> entry option" where
  \<comment> \<open>the entry that the target of an \<^verbatim>\<open>@import\<close> resolves to\<close>
  "import_hit h pm baseHref u =
     (let importUrl = unweird (stripQuotes u);
          target = normKey (resolveAgainst h baseHref importUrl)
      in orElse (pm target) (orElse (pm importUrl) (pm (normKey importUrl))))"

partial_function (option) inlineCssImportsWithMap ::
    "host \<Rightarrow> partMap \<Rightarrow> string \<Rightarrow> string option \<Rightarrow> string option" where
  "inlineCssImportsWithMap h pm css baseHref =
     (case find_import css of
        None \<Rightarrow> Some css
      | Some (i, n, u) \<Rightarrow>
          (case import_hit h pm baseHref u of
             None \<Rightarrow>
               Option.bind (inlineCssImportsWithMap h pm (drop (i + n) css) baseHref)
                 (\<lambda>rest. Some (take i css @ rest))
           | Some hit \<Rightarrow>
               Option.bind (inlineCssImportsWithMap h pm (sheetText h hit) (hitBase hit baseHref))
                 (\<lambda>imported.
                    Option.bind (inlineCssImportsWithMap h pm (drop (i + n) css) baseHref)
                      (\<lambda>rest. Some (take i css
                                     @ inlineCssUrlsWithMap h imported (hitBase hit baseHref) pm
                                     @ rest)))))"

declare inlineCssImportsWithMap.simps [code]

lemma import_at_length: "import_at s = Some (n, u) \<Longrightarrow> 0 < n"
  by (auto simp: import_at_def Let_def split: if_splits option.splits)

lemma find_import_length: "find_import css = Some (i, n, u) \<Longrightarrow> 0 < n \<and> css \<noteq> []"
proof (induction css arbitrary: i)
  case Nil
  then show ?case by simp
next
  case (Cons c s)
  show ?case
  proof (cases "import_at (c # s)")
    case None
    with Cons.prems obtain j where "find_import s = Some (j, n, u)"
      by (auto split: option.splits)
    with Cons.IH show ?thesis by simp
  next
    case (Some a)
    with Cons.prems have "import_at (c # s) = Some (n, u)"
      by (cases a) auto
    then show ?thesis using import_at_length by simp
  qed
qed

function imports_of :: "string \<Rightarrow> string list" where
  \<comment> \<open>the targets of the \<^verbatim>\<open>@import\<close> rules that the loop of \<^verbatim>\<open>inlineCssImportsWithMap\<close>
      finds in a style sheet, in order\<close>
  "imports_of css =
     (case find_import css of
        None \<Rightarrow> []
      | Some (i, n, u) \<Rightarrow> u # imports_of (drop (i + n) css))"
  by pat_completeness auto
termination
proof (relation "measure length")
  show "wf (measure length)" by simp
next
  fix css :: string and x2 i y n u
  assume "find_import css = Some x2" "(i, y) = x2" "(n, u) = y"
  then have "find_import css = Some (i, n, u)" by simp
  then have "0 < n \<and> css \<noteq> []" by (rule find_import_length)
  then show "(drop (i + n) css, css) \<in> measure length" by simp
qed

declare imports_of.simps [simp del]

definition import_call ::
  "host \<Rightarrow> partMap \<Rightarrow> string \<times> string option \<Rightarrow> string \<times> string option \<Rightarrow> bool" where
  \<comment> \<open>The rewrite of the style sheet text and base \<open>s\<close> calls itself on \<open>s'\<close>: an import rule
      of the text resolves, against this base, to an entry, and \<open>s'\<close> is the text of that
      entry with the base \<^verbatim>\<open>hit.contentLocation || baseHref\<close>.\<close>
  "import_call h pm s s' =
     (\<exists>u e. u \<in> set (imports_of (fst s)) \<and> import_hit h pm (snd s) u = Some e
            \<and> s' = (sheetText h e, hitBase e (snd s)))"

definition import_ranked ::
  "host \<Rightarrow> partMap \<Rightarrow> (string \<times> string option) set \<Rightarrow> (string \<times> string option \<Rightarrow> nat) \<Rightarrow> bool" where
  \<comment> \<open>The imports have no cycle from the calls in \<open>S\<close> on: every call that the rewrite
      makes from a call in \<open>S\<close> is in \<open>S\<close> again and of lower rank.\<close>
  "import_ranked h pm S rank =
     (\<forall>s s'. s \<in> S \<longrightarrow> import_call h pm s s' \<longrightarrow> s' \<in> S \<and> rank s' < rank s)"

definition targets_return :: "host \<Rightarrow> partMap \<Rightarrow> string \<Rightarrow> string option \<Rightarrow> bool" where
  \<comment> \<open>the rewrite returns on every call that it makes for an import rule of \<open>css\<close>\<close>
  "targets_return h pm css base =
     (\<forall>u e. u \<in> set (imports_of css) \<longrightarrow> import_hit h pm base u = Some e \<longrightarrow>
        (\<exists>out. inlineCssImportsWithMap h pm (sheetText h e) (hitBase e base) = Some out))"

definition css_chain_a :: string where
  "css_chain_a = ''@import url(cid:b);p{}''"

definition css_chain_b :: string where
  "css_chain_b = ''body{color:red}''"

definition css_twice :: string where
  \<comment> \<open>an example: the same style sheet imported twice\<close>
  "css_twice = ''@import url(cid:b);@import url(cid:b);''"

definition css_no_space :: string where
  \<comment> \<open>an example: the rule \<^verbatim>\<open>@import"a.css";\<close>, a string right after the keyword\<close>
  "css_no_space = ''@import'' @ [CHR 0x22] @ ''a.css'' @ [CHR 0x22] @ '';''"

definition css_joined :: string where
  \<comment> \<open>an example: an \<^verbatim>\<open>@import\<close> rule inside the text of another\<close>
  "css_joined = ''@imp@import url(x.css);ort url(y.css);''"

definition css_imports_a :: string where
  "css_imports_a = ''@import url(cid:a);''"

definition css_imports_b :: string where
  "css_imports_b = ''@import url(cid:b);''"

definition parts_cycle :: "part list" where
  \<comment> \<open>an example: two style sheets that import each other by content id\<close>
  "parts_cycle = [mkPart ''text/css'' None (Some ''a'') css_imports_b,
                  mkPart ''text/css'' None (Some ''b'') css_imports_a]"

definition parts_chain :: "part list" where
  \<comment> \<open>an example: a style sheet that imports another, which imports nothing\<close>
  "parts_chain = [mkPart ''text/css'' None (Some ''a'') css_chain_a,
                  mkPart ''text/css'' None (Some ''b'') css_chain_b]"

definition url_host :: host where
  \<comment> \<open>the host of the examples with the values of \<^verbatim>\<open>new URL(href, base)\<close> that the next
      example asks for\<close>
  "url_host = plain_host \<lparr> URL := (\<lambda>href base. map_of
       [((''theme/main.css'', ''http://x/index.html''), ''http://x/theme/main.css''),
        ((''../main.css'', ''http://x/theme/main.css''), ''http://x/main.css''),
        ((''http://x/theme/main.css'', ''http://x/index.html''), ''http://x/theme/main.css''),
        ((''http://x/main.css'', ''http://x/index.html''), ''http://x/main.css'')] (href, base)) \<rparr>"

definition css_index :: string where
  "css_index = ''@import url(theme/main.css);''"

definition css_theme :: string where
  "css_theme = ''@import url(../main.css);p{}''"

definition parts_theme :: "part list" where
  \<comment> \<open>an example: a style sheet in a directory that imports, by a relative reference, a
      style sheet with the same file name one level up\<close>
  "parts_theme = [mkPart ''text/css'' (Some ''http://x/theme/main.css'') None css_theme,
                  mkPart ''text/css'' (Some ''http://x/main.css'') None css_chain_b]"

definition theme_calls :: "(string \<times> string option) list" where
  \<comment> \<open>the calls of the rewrite in the example\<close>
  "theme_calls = [(css_index, Some ''http://x/index.html''),
                  (css_theme, Some ''http://x/theme/main.css''),
                  (css_chain_b, Some ''http://x/main.css'')]"

definition twice_calls :: "(string \<times> string option) list" where
  "twice_calls = [(css_twice, None), (css_chain_b, None)]"

definition call_rank :: "string \<times> string option \<Rightarrow> nat" where
  \<comment> \<open>a rank for the examples: the number of import rules of the text, and one more for the
      text that imports a text with an import rule\<close>
  "call_rank s = length (imports_of (fst s)) + (if fst s = css_index then 1 else 0)"

section \<open>Rewriting the document\<close>

definition attr :: "(string \<times> string) list \<Rightarrow> string \<Rightarrow> string option" where
  \<comment> \<open>\<^verbatim>\<open>$(el).attr(name)\<close>, \<open>None\<close> for \<^verbatim>\<open>undefined\<close>\<close>
  "attr as name = map_of as name"

definition attr_or_empty :: "(string \<times> string) list \<Rightarrow> string \<Rightarrow> string" where
  \<comment> \<open>\<^verbatim>\<open>$(el).attr(name) || ""\<close>\<close>
  "attr_or_empty as name = (case attr as name of None \<Rightarrow> [] | Some v \<Rightarrow> v)"

fun set_attr :: "(string \<times> string) list \<Rightarrow> string \<Rightarrow> string \<Rightarrow> (string \<times> string) list" where
  \<comment> \<open>\<^verbatim>\<open>$(el).attr(name, v)\<close>\<close>
  "set_attr [] name v = [(name, v)]"
| "set_attr ((k, w) # as) name v =
     (if k = name then (k, v) # as else (k, w) # set_attr as name v)"

definition remove_attr :: "(string \<times> string) list \<Rightarrow> string \<Rightarrow> (string \<times> string) list" where
  "remove_attr as name = filter (\<lambda>kv. fst kv \<noteq> name) as"

definition attr_is :: "host \<Rightarrow> (string \<times> string) list \<Rightarrow> string \<Rightarrow> string \<Rightarrow> bool" where
  \<comment> \<open>the selector \<^verbatim>\<open>[name="lit"]\<close>\<close>
  "attr_is h as name lit = (case attr as name of None \<Rightarrow> False | Some v \<Rightarrow> attr_equals h name v lit)"

definition strip_cid :: "string \<Rightarrow> string" where
  \<comment> \<open>\<^verbatim>\<open>s.replace(/^cid:/, "")\<close>\<close>
  "strip_cid s = (if startsWith s ''cid:'' then drop 4 s else s)"

definition sheet_hit :: "host \<Rightarrow> string option \<Rightarrow> partMap \<Rightarrow> string \<Rightarrow> entry option" where
  \<comment> \<open>the look-ups for the \<^verbatim>\<open>href\<close> of a style sheet link; \<open>href\<close> is the value after
      \<^verbatim>\<open>normalizeWeirdUrl\<close>\<close>
  "sheet_hit h docBase pm href =
     orElse (pm (normKey (resolveAgainst h docBase href)))
       (orElse (pm href)
         (orElse (pm (normKey href))
           (orElse (pm (''cid:'' @ href)) (pm (strip_cid href)))))"

definition ref_hit :: "host \<Rightarrow> string option \<Rightarrow> partMap \<Rightarrow> string \<Rightarrow> entry option" where
  \<comment> \<open>the look-ups for the \<^verbatim>\<open>src\<close> of an image or script and the \<^verbatim>\<open>href\<close> of an icon;
      \<open>src\<close> is the value after \<^verbatim>\<open>normalizeWeirdUrl\<close>\<close>
  "ref_hit h docBase pm src =
     orElse (pm (normKey (resolveAgainst h docBase src)))
       (orElse (pm src)
         (orElse (pm (normKey src))
           (orElse (pm (''cid:'' @ src))
             (orElse (pm (strip_cid src))
               (orElse (if startsWith src ''cid!'' then pm src else None)
                       (case extractCidFromWeird src of
                          Some c \<Rightarrow> pm (''cid:'' @ c)
                        | None \<Rightarrow> None))))))"

definition anchor_hit :: "partMap \<Rightarrow> string \<Rightarrow> entry option" where
  \<comment> \<open>the look-ups for \<^verbatim>\<open>a[href^="cid:"], a[href^="cid!"]\<close>. A \<^verbatim>\<open>null\<close> from
      \<^verbatim>\<open>extractCidFromWeird\<close> is concatenated as the text \<^verbatim>\<open>null\<close> and finds nothing as a key.\<close>
  "anchor_hit pm href =
     (if startsWith href ''cid!'' then
        (case extractCidFromWeird href of
           Some c \<Rightarrow> orElse (pm (''cid:'' @ c)) (pm c)
         | None \<Rightarrow> pm ''cid:null'')
      else (let c = (if startsWith_ci href ''cid:'' then drop 4 href else href)
            in orElse (pm (''cid:'' @ c)) (pm c)))"

datatype action =
    Replace "node list"                 \<comment> \<open>the element gives way to these nodes\<close>
  | Attrs "(string \<times> string) list"     \<comment> \<open>the element stays, with these attributes\<close>

fun rewrite_node ::
  "(string \<Rightarrow> (string \<times> string) list \<Rightarrow> node list \<Rightarrow> action option) \<Rightarrow> node \<Rightarrow> node list option" where
  \<comment> \<open>One loop over the elements that a selector found, in document order. What the body
      of the loop does to an element is \<open>g\<close>; \<open>None\<close> when it does not return. Nodes put in
      place of an element were not among those found, so the loop does not visit them.\<close>
  "rewrite_node g (Leaf t) = Some [Leaf t]"
| "rewrite_node g (Element tg as kids) =
     (case g tg as kids of
        None \<Rightarrow> None
      | Some (Replace ns) \<Rightarrow> Some ns
      | Some (Attrs as') \<Rightarrow>
          (case those (map (rewrite_node g) kids) of
             None \<Rightarrow> None
           | Some kss \<Rightarrow> Some [Element tg as' (concat kss)]))"

definition rewrite_nodes ::
  "(string \<Rightarrow> (string \<times> string) list \<Rightarrow> node list \<Rightarrow> action option) \<Rightarrow> node list \<Rightarrow> node list option" where
  "rewrite_nodes g doc = map_option concat (those (map (rewrite_node g) doc))"

fun set_base_node :: "bool \<Rightarrow> node \<Rightarrow> node \<times> bool"
  and set_base_nodes :: "bool \<Rightarrow> node list \<Rightarrow> node list \<times> bool" where
  \<comment> \<open>\<^verbatim>\<open>$("base[href]").first()\<close> gets \<^verbatim>\<open>href="."\<close>; the flag says that it has been found\<close>
  "set_base_node found (Leaf t) = (Leaf t, found)"
| "set_base_node found (Element tg as kids) =
     (if \<not> found \<and> tg = ''base'' \<and> attr as ''href'' \<noteq> None
      then (Element tg (set_attr as ''href'' ''.'') kids, True)
      else (case set_base_nodes found kids of (kids', f) \<Rightarrow> (Element tg as kids', f)))"
| "set_base_nodes found [] = ([], found)"
| "set_base_nodes found (n # ns) =
     (case set_base_node found n of
        (n', f) \<Rightarrow> (case set_base_nodes f ns of (ns', f') \<Rightarrow> (n' # ns', f')))"

definition do_stylesheet ::
  "host \<Rightarrow> string option \<Rightarrow> partMap \<Rightarrow> string \<Rightarrow> (string \<times> string) list \<Rightarrow> node list \<Rightarrow> action option" where
  \<comment> \<open>\<^verbatim>\<open>link[rel="stylesheet"][href]\<close>\<close>
  "do_stylesheet h docBase pm tg as kids =
     (if tg = ''link'' \<and> attr_is h as ''rel'' ''stylesheet'' \<and> attr as ''href'' \<noteq> None then
        (let href = unweird (attr_or_empty as ''href'') in
         case sheet_hit h docBase pm href of
           Some hit \<Rightarrow>
             Option.bind (inlineCssImportsWithMap h pm (sheetText h hit) (hitBase hit docBase))
               (\<lambda>css. Some (Replace (cheerio_parse h None
                   (''<style>'' @ inlineCssUrlsWithMap h css (hitBase hit docBase) pm @ ''</style>''))))
         | None \<Rightarrow> if startsWith_ci href ''cid!'' then Some (Replace []) else Some (Attrs as))
      else Some (Attrs as))"

definition do_style ::
  "host \<Rightarrow> string option \<Rightarrow> partMap \<Rightarrow> string \<Rightarrow> (string \<times> string) list \<Rightarrow> node list \<Rightarrow> action option" where
  \<comment> \<open>\<^verbatim>\<open>style\<close> elements\<close>
  "do_style h docBase pm tg as kids =
     (if tg = ''style'' then
        Option.bind (inlineCssImportsWithMap h pm (cheerio_html h kids) docBase)
          (\<lambda>css. Some (Replace [Element tg as
              (cheerio_parse h (Some tg) (inlineCssUrlsWithMap h css docBase pm))]))
      else Some (Attrs as))"

definition do_style_attr ::
  "host \<Rightarrow> string option \<Rightarrow> partMap \<Rightarrow> string \<Rightarrow> (string \<times> string) list \<Rightarrow> node list \<Rightarrow> action option" where
  \<comment> \<open>\<^verbatim>\<open>[style]\<close>\<close>
  "do_style_attr h docBase pm tg as kids =
     (case attr as ''style'' of
        None \<Rightarrow> Some (Attrs as)
      | Some css \<Rightarrow>
          if css = [] then Some (Attrs as)
          else Some (Attrs (set_attr as ''style'' (inlineCssUrlsWithMap h css docBase pm))))"

definition do_img ::
  "host \<Rightarrow> string option \<Rightarrow> partMap \<Rightarrow> string \<Rightarrow> (string \<times> string) list \<Rightarrow> node list \<Rightarrow> action option" where
  \<comment> \<open>\<^verbatim>\<open>img[src]\<close>\<close>
  "do_img h docBase pm tg as kids =
     (if tg = ''img'' \<and> attr as ''src'' \<noteq> None then
        (case ref_hit h docBase pm (unweird (attr_or_empty as ''src'')) of
           Some hit \<Rightarrow> Some (Attrs (set_attr as ''src'' (dataURI hit)))
         | None \<Rightarrow> Some (Attrs as))
      else Some (Attrs as))"

definition do_script ::
  "host \<Rightarrow> string option \<Rightarrow> partMap \<Rightarrow> string \<Rightarrow> (string \<times> string) list \<Rightarrow> node list \<Rightarrow> action option" where
  \<comment> \<open>\<^verbatim>\<open>script[src]\<close>\<close>
  "do_script h docBase pm tg as kids =
     (if tg = ''script'' \<and> attr as ''src'' \<noteq> None then
        (case ref_hit h docBase pm (unweird (attr_or_empty as ''src'')) of
           Some hit \<Rightarrow> Some (Replace [Element tg (remove_attr as ''src'') [Leaf (sheetText h hit)]])
         | None \<Rightarrow> Some (Attrs as))
      else Some (Attrs as))"

definition do_icon ::
  "host \<Rightarrow> string option \<Rightarrow> partMap \<Rightarrow> string \<Rightarrow> (string \<times> string) list \<Rightarrow> node list \<Rightarrow> action option" where
  \<comment> \<open>\<^verbatim>\<open>link[rel="icon"],link[rel="shortcut icon"],link[rel="apple-touch-icon"]\<close>\<close>
  "do_icon h docBase pm tg as kids =
     (if tg = ''link'' \<and> (attr_is h as ''rel'' ''icon'' \<or> attr_is h as ''rel'' ''shortcut icon''
                           \<or> attr_is h as ''rel'' ''apple-touch-icon'') then
        (case ref_hit h docBase pm (unweird (attr_or_empty as ''href'')) of
           Some hit \<Rightarrow> Some (Attrs (set_attr as ''href'' (dataURI hit)))
         | None \<Rightarrow> Some (Attrs as))
      else Some (Attrs as))"

definition do_anchor ::
  "partMap \<Rightarrow> string \<Rightarrow> (string \<times> string) list \<Rightarrow> node list \<Rightarrow> action option" where
  \<comment> \<open>\<^verbatim>\<open>a[href^="cid:"], a[href^="cid!"]\<close>\<close>
  "do_anchor pm tg as kids =
     (if tg = ''a'' \<and> (startsWith (attr_or_empty as ''href'') ''cid:''
                       \<or> startsWith (attr_or_empty as ''href'') ''cid!'') then
        (case anchor_hit pm (attr_or_empty as ''href'') of
           Some hit \<Rightarrow> Some (Attrs (set_attr as ''href'' (dataURI hit)))
         | None \<Rightarrow> Some (Attrs as))
      else Some (Attrs as))"

definition do_hint :: "host \<Rightarrow> string \<Rightarrow> (string \<times> string) list \<Rightarrow> node list \<Rightarrow> action option" where
  \<comment> \<open>\<^verbatim>\<open>link[rel="preconnect"],link[rel="dns-prefetch"],link[rel="preload"],link[rel="prefetch"]\<close>\<close>
  "do_hint h tg as kids =
     (if tg = ''link'' \<and> (attr_is h as ''rel'' ''preconnect'' \<or> attr_is h as ''rel'' ''dns-prefetch''
                           \<or> attr_is h as ''rel'' ''preload'' \<or> attr_is h as ''rel'' ''prefetch'')
      then Some (Replace []) else Some (Attrs as))"

definition rewriteDom :: "host \<Rightarrow> string option \<Rightarrow> partMap \<Rightarrow> node list \<Rightarrow> node list option" where
  \<comment> \<open>the loops of \<^verbatim>\<open>rewriteHtmlWithMap\<close>, one after the other, on the tree\<close>
  "rewriteDom h docBase pm doc =
     Option.bind (rewrite_nodes (do_stylesheet h docBase pm) (fst (set_base_nodes False doc))) (\<lambda>d1.
     Option.bind (rewrite_nodes (do_style h docBase pm) d1) (\<lambda>d2.
     Option.bind (rewrite_nodes (do_style_attr h docBase pm) d2) (\<lambda>d3.
     Option.bind (rewrite_nodes (do_img h docBase pm) d3) (\<lambda>d4.
     Option.bind (rewrite_nodes (do_script h docBase pm) d4) (\<lambda>d5.
     Option.bind (rewrite_nodes (do_icon h docBase pm) d5) (\<lambda>d6.
     Option.bind (rewrite_nodes (do_anchor pm) d6) (\<lambda>d7.
     rewrite_nodes (do_hint h) d7)))))))"

definition rewriteHtmlWithMap :: "host \<Rightarrow> string \<Rightarrow> string option \<Rightarrow> partMap \<Rightarrow> string option" where
  "rewriteHtmlWithMap h html docBase pm =
     map_option (cheerio_html h) (rewriteDom h docBase pm (cheerio_load h html))"

section \<open>One conversion\<close>

definition convert :: "host \<Rightarrow> string \<Rightarrow> (error + string) option" where
  \<comment> \<open>One round of the main loop, from the bytes of a file to the text that is written.
      \<open>Some (Inl e)\<close>: the error \<open>e\<close> is thrown and nothing is written; \<open>None\<close>: the round does
      not return.\<close>
  "convert h buffer =
     (case parseMHTML h buffer of
        Inl e \<Rightarrow> Some (Inl e)
      | Inr parts \<Rightarrow>
          (case selectRoot parts of
             Inl e \<Rightarrow> Some (Inl e)
           | Inr rootPart \<Rightarrow>
               (let docBase = (if truthy (contentLocation rootPart) then contentLocation rootPart else None);
                    partMap = buildPartMap h parts docBase
                in map_option Inr (rewriteHtmlWithMap h (sheetText h rootPart) docBase partMap))))"

section \<open>Documents that the rewriter leaves alone\<close>


definition always_rewritten :: "host \<Rightarrow> string \<Rightarrow> (string \<times> string) list \<Rightarrow> bool" where
  \<comment> \<open>the elements that the rewriter works on whatever the part map holds: \<^verbatim>\<open>base[href]\<close>,
      \<^verbatim>\<open>style\<close>, a \<^verbatim>\<open>style\<close> attribute that is not empty, and the four kinds of hint links\<close>
  "always_rewritten h tg as =
     ((tg = ''base'' \<and> attr as ''href'' \<noteq> None)
      \<or> tg = ''style''
      \<or> (case attr as ''style'' of None \<Rightarrow> False | Some css \<Rightarrow> css \<noteq> [])
      \<or> (tg = ''link'' \<and> (attr_is h as ''rel'' ''preconnect'' \<or> attr_is h as ''rel'' ''dns-prefetch''
                            \<or> attr_is h as ''rel'' ''preload'' \<or> attr_is h as ''rel'' ''prefetch'')))"

definition placeholder_sheet :: "host \<Rightarrow> string \<Rightarrow> (string \<times> string) list \<Rightarrow> bool" where
  \<comment> \<open>a style sheet link whose \<^verbatim>\<open>href\<close> is a \<^verbatim>\<open>cid!\<close> placeholder\<close>
  "placeholder_sheet h tg as =
     (tg = ''link'' \<and> attr_is h as ''rel'' ''stylesheet'' \<and> attr as ''href'' \<noteq> None
      \<and> startsWith_ci (unweird (attr_or_empty as ''href'')) ''cid!'')"

definition reference_misses ::
  "host \<Rightarrow> string option \<Rightarrow> partMap \<Rightarrow> string \<Rightarrow> (string \<times> string) list \<Rightarrow> bool" where
  \<comment> \<open>the reference of the element, if it has one that a loop of the rewriter looks up,
      matches no entry of the part map\<close>
  "reference_misses h docBase pm tg as =
     ((tg = ''link'' \<and> attr_is h as ''rel'' ''stylesheet'' \<and> attr as ''href'' \<noteq> None \<longrightarrow>
         sheet_hit h docBase pm (unweird (attr_or_empty as ''href'')) = None)
      \<and> ((tg = ''img'' \<or> tg = ''script'') \<and> attr as ''src'' \<noteq> None \<longrightarrow>
         ref_hit h docBase pm (unweird (attr_or_empty as ''src'')) = None)
      \<and> (tg = ''link'' \<and> (attr_is h as ''rel'' ''icon'' \<or> attr_is h as ''rel'' ''shortcut icon''
                            \<or> attr_is h as ''rel'' ''apple-touch-icon'') \<longrightarrow>
         ref_hit h docBase pm (unweird (attr_or_empty as ''href'')) = None)
      \<and> (tg = ''a'' \<and> (startsWith (attr_or_empty as ''href'') ''cid:''
                        \<or> startsWith (attr_or_empty as ''href'') ''cid!'') \<longrightarrow>
         anchor_hit pm (attr_or_empty as ''href'') = None))"

definition left_alone :: "host \<Rightarrow> string option \<Rightarrow> partMap \<Rightarrow> string \<Rightarrow> (string \<times> string) list \<Rightarrow> bool" where
  "left_alone h docBase pm tg as =
     (\<not> always_rewritten h tg as \<and> \<not> placeholder_sheet h tg as \<and> reference_misses h docBase pm tg as)"

definition reference_kept :: "host \<Rightarrow> string option \<Rightarrow> partMap \<Rightarrow> string \<Rightarrow> (string \<times> string) list \<Rightarrow> bool" where
  \<comment> \<open>The element is none of \<^verbatim>\<open>base[href]\<close>, \<^verbatim>\<open>style\<close>, a hint link and a style sheet link
      with a \<^verbatim>\<open>cid!\<close> placeholder, and its reference, if it has one that a loop of the
      rewriter looks up, matches no entry of the part map. The element may have a
      \<^verbatim>\<open>style\<close> attribute.\<close>
  "reference_kept h docBase pm tg as =
     (\<not> (tg = ''base'' \<and> attr as ''href'' \<noteq> None)
      \<and> tg \<noteq> ''style''
      \<and> \<not> (tg = ''link'' \<and> (attr_is h as ''rel'' ''preconnect'' \<or> attr_is h as ''rel'' ''dns-prefetch''
                            \<or> attr_is h as ''rel'' ''preload'' \<or> attr_is h as ''rel'' ''prefetch''))
      \<and> \<not> placeholder_sheet h tg as
      \<and> reference_misses h docBase pm tg as)"








definition parts_data_key :: "part list" where
  \<comment> \<open>an example: an image, and a second part whose Content-Location is the data URI of
      the first\<close>
  "parts_data_key =
     [mkPart ''image/png'' (Some ''a.png'') None ''A'',
      mkPart ''image/png'' (Some ''data:image/png;base64,QQ=='') None ''B'']"


definition doc_img_a :: "node list" where
  "doc_img_a = [Element ''img'' [(''src'', ''a.png'')] []]"

definition doc_img_first :: "node list" where
  \<comment> \<open>the image with the data URI of the bytes \<^verbatim>\<open>A\<close>\<close>
  "doc_img_first = [Element ''img'' [(''src'', ''data:image/png;base64,QQ=='')] []]"

definition doc_img_second :: "node list" where
  \<comment> \<open>the image with the data URI of the bytes \<^verbatim>\<open>B\<close>\<close>
  "doc_img_second = [Element ''img'' [(''src'', ''data:image/png;base64,Qg=='')] []]"

section \<open>The part map: first registration wins\<close>

lemmas example_defs = registers_def partKeys_def absKey_def cidKeys_def mkPart_def normKey_opt_def
  normKey_def trim_def is_space_def partValue_def toDataURI_def plain_host_def startsWith_ci_def
  ascii_lower_def b64chr_def b64_alphabet_def part.defs

lemma addKey_keys:
  "foldl (\<lambda>m key. addKey m key v) byKey ks k =
     (case byKey k of Some w \<Rightarrow> Some w
      | None \<Rightarrow> if k \<noteq> [] \<and> k \<in> set ks then Some v else None)"
  by (induction ks arbitrary: byKey) (auto simp: addKey_def split: option.splits)

lemma addPart_lookup:
  "addPart h docBase byKey p k =
     (case byKey k of Some w \<Rightarrow> Some w
      | None \<Rightarrow> if registers h docBase k p then Some (partValue h p) else None)"
  by (simp add: addPart_def addKey_keys registers_def)

lemma foldl_addPart_lookup:
  "foldl (addPart h docBase) byKey parts k =
     (case byKey k of Some w \<Rightarrow> Some w
      | None \<Rightarrow> map_option (partValue h) (find (registers h docBase k) parts))"
  by (induction parts arbitrary: byKey) (auto simp: addPart_lookup split: option.splits)

lemma buildPartMap_find:
  "buildPartMap h parts docBase key =
     map_option (partValue h) (find (registers h docBase key) parts)"
  by (simp add: buildPartMap_def foldl_addPart_lookup)

lemma find_append_case:
  "find P (xs @ ys) = (case find P xs of None \<Rightarrow> find P ys | Some x \<Rightarrow> Some x)"
  by (induction xs) auto

lemma registers_cid_keys:
  assumes "contentId p = Some c" "c \<noteq> []"
  shows "registers h docBase (''cid:'' @ normKey c) p"
    and "registers h docBase (''cid!'' @ normKey c @ ''@mhtml.blink'') p"
    and "normKey c \<noteq> [] \<Longrightarrow> registers h docBase (normKey c) p"
  using assms by (simp_all add: registers_def partKeys_def cidKeys_def)

lemma buildPartMap_fresh:
  assumes "registers h docBase k p" "\<forall>q \<in> set pre. \<not> registers h docBase k q"
  shows "buildPartMap h (pre @ p # post) docBase k = Some (partValue h p)"
proof -
  have "find (registers h docBase k) pre = None"
    using assms(2) by (simp add: find_None_iff)
  then show ?thesis
    using assms(1) by (simp add: buildPartMap_find find_append_case)
qed

text \<open>
  C5. For every list of parts and every key, the part map holds under that key the first
  part of the list that registers it; no later part replaces it.
\<close>

theorem buildPartMap_first_wins:
  "buildPartMap h parts docBase key =
     (case find (registers h docBase key) parts of
        None \<Rightarrow> None
      | Some p \<Rightarrow> Some (partValue h p))"
  by (simp add: buildPartMap_def foldl_addPart_lookup split: option.splits)

lemma extractCid_placeholder:
  assumes "k \<noteq> []" and "CHR ''@'' \<notin> set k"
  shows "extractCidFromWeird (''cid!'' @ k @ ''@mhtml.blink'') = Some k"
proof -
  have t: "takeWhile (\<lambda>c. c \<noteq> CHR ''@'') (k @ ''@mhtml.blink'') = k"
    using assms(2) by (induction k) auto
  have s: "startsWith_ci (''cid!'' @ k @ ''@mhtml.blink'') ''cid!''"
    by (simp add: startsWith_ci_def ascii_lower_def)
  have d: "drop 4 (''cid!'' @ k @ ''@mhtml.blink'') = k @ ''@mhtml.blink''" by simp
  show ?thesis
    unfolding extractCidFromWeird_def using assms(1)
    by (simp only: s d t Let_def if_True) simp
qed

text \<open>
  C7, as stated, fails: the three spellings of a content id need not resolve to one entry.
  An earlier part whose Content-Location is \<^verbatim>\<open>cid:abc123\<close> owns that key, and the part with
  \<^verbatim>\<open>Content-ID: <abc123>\<close> owns only the other two.
\<close>

theorem cid_spellings_counterexample:
  "buildPartMap plain_host
     [mkPart ''text/css'' (Some ''cid:abc123'') None ''a{}'',
      mkPart ''image/png'' None (Some ''abc123'') ''B''] None ''cid:abc123''
   \<noteq> buildPartMap plain_host
     [mkPart ''text/css'' (Some ''cid:abc123'') None ''a{}'',
      mkPart ''image/png'' None (Some ''abc123'') ''B''] None ''cid!abc123@mhtml.blink''"
  by (simp add: buildPartMap_find example_defs)

text \<open>
  C7, amended. For a part with a content id whose normalised token is not empty, the keys
  \<^verbatim>\<open>cid!<id>@mhtml.blink\<close>, \<^verbatim>\<open>cid:<id>\<close> and the bare token all resolve to the entry of that
  part (the same part, the same data URI), provided no earlier part of the list has
  registered one of the three keys. From the placeholder of a token without \<^verbatim>\<open>@\<close>,
  \<^verbatim>\<open>extractCidFromWeird\<close> gives the token back.
\<close>

theorem cid_spellings_same_entry:
  assumes "contentId p = Some c" and "c \<noteq> []" and "normKey c \<noteq> []"
    and "\<forall>q \<in> set pre. \<not> registers h docBase (''cid!'' @ normKey c @ ''@mhtml.blink'') q
                      \<and> \<not> registers h docBase (''cid:'' @ normKey c) q
                      \<and> \<not> registers h docBase (normKey c) q"
  shows "buildPartMap h (pre @ p # post) docBase (''cid!'' @ normKey c @ ''@mhtml.blink'')
           = Some (partValue h p)
       \<and> buildPartMap h (pre @ p # post) docBase (''cid:'' @ normKey c) = Some (partValue h p)
       \<and> buildPartMap h (pre @ p # post) docBase (normKey c) = Some (partValue h p)
       \<and> (CHR ''@'' \<notin> set (normKey c) \<longrightarrow>
            extractCidFromWeird (''cid!'' @ normKey c @ ''@mhtml.blink'') = Some (normKey c))"
  using assms registers_cid_keys[OF assms(1,2), of h docBase] extractCid_placeholder[OF assms(3)]
  by (simp add: buildPartMap_fresh)

theorem cid_spellings_same_entry_witness:
  "contentId (mkPart ''image/png'' None (Some ''abc123'') ''B'') = Some ''abc123''
   \<and> normKey ''abc123'' = ''abc123''
   \<and> buildPartMap plain_host
        ([mkPart ''text/css'' (Some ''style.css'') None ''a{}'']
           @ mkPart ''image/png'' None (Some ''abc123'') ''B'' # [])
        None ''cid!abc123@mhtml.blink''
      = Some (partValue plain_host (mkPart ''image/png'' None (Some ''abc123'') ''B''))
   \<and> buildPartMap plain_host
        ([mkPart ''text/css'' (Some ''style.css'') None ''a{}'']
           @ mkPart ''image/png'' None (Some ''abc123'') ''B'' # [])
        None ''cid:abc123''
      = Some (partValue plain_host (mkPart ''image/png'' None (Some ''abc123'') ''B''))
   \<and> buildPartMap plain_host
        ([mkPart ''text/css'' (Some ''style.css'') None ''a{}'']
           @ mkPart ''image/png'' None (Some ''abc123'') ''B'' # [])
        None ''abc123''
      = Some (partValue plain_host (mkPart ''image/png'' None (Some ''abc123'') ''B''))"
  using cid_spellings_same_entry[of "mkPart ''image/png'' None (Some ''abc123'') ''B''" "''abc123''"
          "[mkPart ''text/css'' (Some ''style.css'') None ''a{}'']" plain_host None "[]"]
  by (simp add: registers_def partKeys_def absKey_def cidKeys_def mkPart_def normKey_opt_def
        normKey_def trim_def is_space_def)

text \<open>
  C10, as stated, fails for its second half: the bare token is registered, but a reference
  consisting of the token need not resolve to that part. Of two parts with the same
  content id the first owns the key.
\<close>

theorem bare_token_counterexample:
  "buildPartMap plain_host
     [mkPart ''image/png'' None (Some ''abc123'') ''A'',
      mkPart ''image/png'' None (Some ''abc123'') ''B''] None ''abc123''
   \<noteq> Some (partValue plain_host (mkPart ''image/png'' None (Some ''abc123'') ''B''))"
  by (simp add: buildPartMap_find example_defs)

text \<open>
  C10, amended. For every part with a content id whose normalised token is not empty, the
  part map has an entry under the bare token (without \<^verbatim>\<open>cid:\<close> prefix or placeholder
  wrapper): the entry of the first earlier part that registered the same key, if there is
  one, and the entry of this part otherwise.
\<close>

theorem bare_token_registered:
  assumes "contentId p = Some c" and "c \<noteq> []" and "normKey c \<noteq> []"
  shows "buildPartMap h (pre @ p # post) docBase (normKey c) =
           (case find (registers h docBase (normKey c)) pre of
              Some q \<Rightarrow> Some (partValue h q)
            | None \<Rightarrow> Some (partValue h p))"
  using registers_cid_keys(3)[OF assms(1,2,3), of h docBase]
  by (simp add: buildPartMap_find find_append_case split: option.splits)

theorem bare_token_registered_witness:
  "contentId (mkPart ''image/png'' None (Some ''abc123'') ''B'') = Some ''abc123''
   \<and> normKey ''abc123'' = ''abc123''
   \<and> buildPartMap plain_host
        ([mkPart ''text/css'' (Some ''style.css'') None ''a{}'']
           @ mkPart ''image/png'' None (Some ''abc123'') ''B'' # [])
        None ''abc123''
      = Some (partValue plain_host (mkPart ''image/png'' None (Some ''abc123'') ''B''))"
  using bare_token_registered[of "mkPart ''image/png'' None (Some ''abc123'') ''B''" "''abc123''"
          plain_host "[mkPart ''text/css'' (Some ''style.css'') None ''a{}'']" "[]" None]
  by (simp add: registers_def partKeys_def absKey_def cidKeys_def mkPart_def normKey_opt_def
        normKey_def trim_def is_space_def)

section \<open>The container parser\<close>

lemma take_eq_iff_append: "take (length p) xs = p \<longleftrightarrow> (\<exists>post. xs = p @ post)"
proof
  assume "take (length p) xs = p"
  then have "xs = p @ drop (length p) xs" by (metis append_take_drop_id)
  then show "\<exists>post. xs = p @ post" ..
next
  assume "\<exists>post. xs = p @ post"
  then show "take (length p) xs = p" by auto
qed

lemma indexOf_None_iff: "indexOf s p = None \<longleftrightarrow> \<not> (\<exists>pre post. s = pre @ p @ post)"
proof (induction s)
  case Nil
  show ?case by auto
next
  case (Cons c s)
  have "(\<exists>pre post. c # s = pre @ p @ post)
        \<longleftrightarrow> (\<exists>post. c # s = p @ post) \<or> (\<exists>pre post. s = pre @ p @ post)"
  proof
    assume "\<exists>pre post. c # s = pre @ p @ post"
    then obtain pre post where e: "c # s = pre @ p @ post" by blast
    show "(\<exists>post. c # s = p @ post) \<or> (\<exists>pre post. s = pre @ p @ post)"
    proof (cases pre)
      case Nil with e show ?thesis by auto
    next
      case (Cons a pre') with e show ?thesis by auto
    qed
  next
    assume "(\<exists>post. c # s = p @ post) \<or> (\<exists>pre post. s = pre @ p @ post)"
    then show "\<exists>pre post. c # s = pre @ p @ post"
    proof
      assume "\<exists>post. c # s = p @ post"
      then show ?thesis by (metis append_Nil)
    next
      assume "\<exists>pre post. s = pre @ p @ post"
      then obtain pre post where "s = pre @ p @ post" by blast
      then have "c # s = (c # pre) @ p @ post" by simp
      then show ?thesis by blast
    qed
  qed
  then show ?case
    using Cons.IH by (simp add: take_eq_iff_append[symmetric])
qed

lemma indexOf_short: "length s < length p \<Longrightarrow> indexOf s p = None"
  unfolding indexOf_None_iff by auto

lemma indexOf_first:
  assumes "p \<noteq> []"
  shows "indexOf (pre @ butlast p) p = None \<Longrightarrow> indexOf (pre @ p @ post) p = Some (length pre)"
proof (induction pre)
  case Nil
  from assms obtain c q where "p = c # q" by (cases p) auto
  then show ?case by simp
next
  case (Cons c pre)
  have len: "length p \<le> length (c # pre @ butlast p)" using assms by (cases p) auto
  from Cons.prems have ne: "take (length p) (c # pre @ butlast p) \<noteq> p"
    and tl: "indexOf (pre @ butlast p) p = None"
    by (auto split: if_splits)
  have "c # pre @ p @ post = (c # pre @ butlast p) @ (last p # post)"
    using assms by simp
  then have "take (length p) (c # pre @ p @ post)
             = take (length p) ((c # pre @ butlast p) @ (last p # post))" by (rule arg_cong)
  then have "take (length p) (c # pre @ p @ post) = take (length p) (c # pre @ butlast p)"
    using len by (simp only: take_append) simp
  with ne Cons.IH[OF tl] show ?case by simp
qed

lemma indexOf_Some_split:
  assumes "p \<noteq> []"
  shows "indexOf s p = Some i \<Longrightarrow>
           s = take i s @ p @ drop (i + length p) s \<and> indexOf (take i s @ butlast p) p = None"
proof (induction s arbitrary: i)
  case Nil
  with assms show ?case by simp
next
  case (Cons c s)
  show ?case
  proof (cases "take (length p) (c # s) = p")
    case True
    with Cons.prems have i: "i = 0" by simp
    have "c # s = p @ drop (length p) (c # s)" using True by (metis append_take_drop_id)
    moreover have "indexOf (butlast p) p = None" using assms by (intro indexOf_short) simp
    ultimately show ?thesis using i by simp
  next
    case False
    with Cons.prems obtain j where j: "indexOf s p = Some j" and i: "i = Suc j" by auto
    from Cons.IH[OF j] have dec: "s = take j s @ p @ drop (j + length p) s"
      and none: "indexOf (take j s @ butlast p) p = None" by simp_all
    have len: "length p \<le> length (c # take j s @ butlast p)" using assms by (cases p) auto
    have "p = butlast p @ [last p]" using assms by simp
    then have "take j s @ p @ drop (j + length p) s
                 = (take j s @ butlast p) @ (last p # drop (j + length p) s)"
      by (metis append_Cons append_Nil append_assoc)
    with dec have "c # s = (c # take j s @ butlast p) @ (last p # drop (j + length p) s)"
      by simp
    then have "take (length p) (c # s)
                 = take (length p) ((c # take j s @ butlast p) @ (last p # drop (j + length p) s))"
      by (rule arg_cong)
    then have "take (length p) (c # s) = take (length p) (c # take j s @ butlast p)"
      using len by (simp only: take_append) simp
    with False have "take (length p) (c # take j s @ butlast p) \<noteq> p" by simp
    with none have "indexOf (c # take j s @ butlast p) p = None" by simp
    with dec i show ?thesis by simp
  qed
qed

lemma butlast_CRLFCRLF: "butlast CRLFCRLF = take 3 CRLFCRLF" "CRLFCRLF \<noteq> []" "length CRLFCRLF = 4"
  by (simp_all add: CRLFCRLF_def)

lemma splits_indexOf:
  "splits_at_blank_line s hdr rest \<Longrightarrow> indexOf s CRLFCRLF = Some (length hdr)"
  unfolding splits_at_blank_line_def has_header_block_def indexOf_None_iff[symmetric]
  using indexOf_first[of CRLFCRLF hdr rest] by (simp add: butlast_CRLFCRLF)

lemma indexOf_splits:
  "indexOf s CRLFCRLF = Some i \<Longrightarrow> splits_at_blank_line s (take i s) (drop (i + 4) s)"
  unfolding splits_at_blank_line_def has_header_block_def indexOf_None_iff[symmetric]
  using indexOf_Some_split[of CRLFCRLF s i] by (simp add: butlast_CRLFCRLF)


lemma map_of_assign_header:
  "map_of (assign_header out name v) k =
     (if name = ''__proto__'' then map_of out k else ((map_of out)(name \<mapsto> v)) k)"
proof -
  have "map_of (set_header out name v) = (map_of out)(name \<mapsto> v)"
    by (induction out name v rule: set_header.induct) auto
  then show ?thesis by (simp add: assign_header_def)
qed

lemma unfold_from_name: "name \<in> fst ` set (unfold_from name v ls)"
proof (induction ls arbitrary: name v)
  case Nil
  show ?case by simp
next
  case (Cons l ls)
  show ?case
  proof (cases "l \<noteq> [] \<and> is_space (hd l)")
    case True
    then show ?thesis using Cons.IH by simp
  next
    case False
    show ?thesis
    proof (cases "header_line l")
      case None
      with False show ?thesis using Cons.IH by auto
    next
      case (Some nw)
      obtain n w where "nw = (n, w)" by (cases nw)
      with False Some have "unfold_from name v (l # ls) = (name, v) # unfold_from (toLowerCase n) w ls"
        by auto
      then show ?thesis by force
    qed
  qed
qed

lemma unfold_from_dom: "name \<in> dom (map_of (rev (unfold_from name v ls)))"
  using unfold_from_name[of name v ls] by (simp add: dom_map_of_conv_image_fst)

lemma foldl_step_unfold:
  assumes "k \<noteq> ''__proto__''"
  shows "(name \<noteq> ''__proto__'' \<longrightarrow> map_of out name = Some v) \<Longrightarrow>
         map_of (fst (foldl parseHeaders_step (out, Some name) ls)) k
           = (map_of out ++ map_of (rev (unfold_from name v ls))) k"
proof (induction ls arbitrary: out name v)
  case Nil
  then show ?case using assms by (auto simp: map_add_def)
next
  case (Cons l ls)
  show ?case
  proof (cases "l \<noteq> [] \<and> is_space (hd l)")
    case True
    let ?v = "v @ '' '' @ trim l"
    let ?out = "assign_header out name ((case get_header out name of Some w \<Rightarrow> w | None \<Rightarrow> []) @ '' '' @ trim l)"
    have st: "parseHeaders_step (out, Some name) l = (?out, Some name)"
      using True by (simp add: parseHeaders_step_def)
    have pre: "name \<noteq> ''__proto__'' \<longrightarrow> map_of ?out name = Some ?v"
      using Cons.prems by (simp add: map_of_assign_header get_header_def)
    have ih: "map_of (fst (foldl parseHeaders_step (?out, Some name) ls)) k
           = (map_of ?out ++ map_of (rev (unfold_from name ?v ls))) k"
      by (rule Cons.IH[OF pre])
    have "(map_of ?out ++ map_of (rev (unfold_from name ?v ls))) k
           = (map_of out ++ map_of (rev (unfold_from name ?v ls))) k"
    proof (cases "k = name")
      case True
      then obtain y where "map_of (rev (unfold_from name ?v ls)) k = Some y"
        using unfold_from_dom[of name ?v ls] by auto
      then show ?thesis by (simp add: map_add_def)
    next
      case False
      then show ?thesis by (simp add: map_add_def map_of_assign_header split: option.splits)
    qed
    with ih show ?thesis using True by (simp add: st)
  next
    case False
    show ?thesis
    proof (cases "header_line l")
      case None
      have st: "parseHeaders_step (out, Some name) l = (out, Some name)"
        using False None by (auto simp: parseHeaders_step_def)
      have un: "unfold_from name v (l # ls) = unfold_from name v ls"
        using False None by auto
      show ?thesis using Cons.IH[OF Cons.prems] unfolding un by (simp add: st)
    next
      case (Some nw)
      obtain n w where nw: "nw = (n, w)" by (cases nw)
      let ?n = "toLowerCase n"
      let ?out = "assign_header out ?n w"
      have st: "parseHeaders_step (out, Some name) l = (?out, Some ?n)"
        using False Some nw by (auto simp: parseHeaders_step_def)
      have pre: "?n \<noteq> ''__proto__'' \<longrightarrow> map_of ?out ?n = Some w"
        by (simp add: map_of_assign_header)
      have ih: "map_of (fst (foldl parseHeaders_step (?out, Some ?n) ls)) k
           = (map_of ?out ++ map_of (rev (unfold_from ?n w ls))) k"
        by (rule Cons.IH[OF pre])
      have un: "unfold_from name v (l # ls) = (name, v) # unfold_from ?n w ls"
        using False Some nw by auto
      have "(map_of ?out ++ map_of (rev (unfold_from ?n w ls))) k
           = (map_of out ++ map_of (rev (unfold_from ?n w ls) @ [(name, v)])) k"
      proof (cases "map_of (rev (unfold_from ?n w ls)) k")
        case (Some y)
        then show ?thesis by (simp add: map_add_def)
      next
        case None
        then have kn: "k \<noteq> ?n" using unfold_from_dom[of ?n w ls] by auto
        show ?thesis
          using None kn Cons.prems assms
          by (auto simp: map_add_def map_of_assign_header)
      qed
      with ih show ?thesis unfolding un by (simp add: st)
    qed
  qed
qed

lemma foldl_step_headers:
  assumes "k \<noteq> ''__proto__''"
  shows "map_of (fst (foldl parseHeaders_step ([], None) ls)) k = map_of (rev (unfolded_headers ls)) k"
proof (induction ls)
  case Nil
  show ?case by simp
next
  case (Cons l ls)
  show ?case
  proof (cases "header_line l")
    case None
    then have "parseHeaders_step ([], None) l = ([], None)"
      by (simp add: parseHeaders_step_def)
    then show ?thesis using None Cons.IH by simp
  next
    case (Some nw)
    obtain n w where nw: "nw = (n, w)" by (cases nw)
    let ?n = "toLowerCase n"
    have st: "parseHeaders_step ([], None) l = (assign_header [] ?n w, Some ?n)"
      using Some nw by (simp add: parseHeaders_step_def)
    have pre: "?n \<noteq> ''__proto__'' \<longrightarrow> map_of (assign_header [] ?n w) ?n = Some w"
      by (simp add: map_of_assign_header)
    have "map_of (fst (foldl parseHeaders_step (assign_header [] ?n w, Some ?n) ls)) k
           = (map_of (assign_header [] ?n w) ++ map_of (rev (unfold_from ?n w ls))) k"
      by (rule foldl_step_unfold[OF assms pre])
    also have "\<dots> = map_of (rev (unfold_from ?n w ls)) k"
    proof (cases "map_of (rev (unfold_from ?n w ls)) k")
      case (Some y)
      then show ?thesis by (simp add: map_add_def)
    next
      case None
      then have "k \<noteq> ?n" using unfold_from_dom[of ?n w ls] by auto
      with None show ?thesis by (simp add: map_add_def map_of_assign_header)
    qed
    finally show ?thesis using Some nw by (simp add: st)
  qed
qed

lemma parseHeaders_header_value:
  "name \<noteq> ''__proto__'' \<Longrightarrow> get_header (parseHeaders block) name = header_value block name"
  by (simp add: get_header_def parseHeaders_def header_value_def foldl_step_headers)

lemma header_or_value:
  "name \<noteq> ''__proto__'' \<Longrightarrow> header_or (parseHeaders block) name [] = value_or_empty (header_value block name)"
  by (simp add: header_or_def value_or_empty_def parseHeaders_header_value split: option.splits)

lemma outerContentType_None_iff: "outerContentType buffer = None \<longleftrightarrow> \<not> has_header_block buffer"
  unfolding has_header_block_def indexOf_None_iff[symmetric]
  by (simp add: outerContentType_def split: option.splits)

lemma outerContentType_Some_iff:
  "outerContentType buffer = Some ct \<longleftrightarrow>
     (\<exists>hdr rest. splits_at_blank_line buffer hdr rest
         \<and> ct = value_or_empty (header_value hdr ''content-type''))"
proof
  assume "outerContentType buffer = Some ct"
  then obtain i where i: "indexOf buffer CRLFCRLF = Some i"
    and ct: "ct = header_or (parseHeaders (take i buffer)) ''content-type'' []"
    by (auto simp: outerContentType_def split: option.splits)
  from indexOf_splits[OF i] ct
  show "\<exists>hdr rest. splits_at_blank_line buffer hdr rest
         \<and> ct = value_or_empty (header_value hdr ''content-type'')"
    by (auto simp: header_or_value)
next
  assume "\<exists>hdr rest. splits_at_blank_line buffer hdr rest
         \<and> ct = value_or_empty (header_value hdr ''content-type'')"
  then obtain hdr rest where s: "splits_at_blank_line buffer hdr rest"
    and ct: "ct = value_or_empty (header_value hdr ''content-type'')" by blast
  from s have "take (length hdr) buffer = hdr" by (simp add: splits_at_blank_line_def)
  then show "outerContentType buffer = Some ct"
    using splits_indexOf[OF s] ct by (simp add: outerContentType_def header_or_value)
qed

lemma boundary_at_iff:
  "boundary_at r \<noteq> None \<longleftrightarrow> (\<exists>q c rest. r = q @ c # rest \<and> (q = [] \<or> q = [CHR 0x22]) \<and> c \<noteq> CHR 0x22)"
proof
  assume "boundary_at r \<noteq> None"
  then show "\<exists>q c rest. r = q @ c # rest \<and> (q = [] \<or> q = [CHR 0x22]) \<and> c \<noteq> CHR 0x22"
  proof (cases r)
    case Nil
    with \<open>boundary_at r \<noteq> None\<close> show ?thesis by (simp add: boundary_at_def)
  next
    case (Cons a t)
    show ?thesis
    proof (cases "a = CHR 0x22")
      case False
      with Cons have "r = [] @ a # t \<and> a \<noteq> CHR 0x22" by simp
      then show ?thesis by blast
    next
      case True
      with Cons \<open>boundary_at r \<noteq> None\<close> obtain b u where "t = b # u" "b \<noteq> CHR 0x22"
        by (cases t) (auto simp: boundary_at_def Let_def split: if_splits)
      with Cons True have "r = [CHR 0x22] @ b # u \<and> b \<noteq> CHR 0x22" by simp
      then show ?thesis by blast
    qed
  qed
next
  assume "\<exists>q c rest. r = q @ c # rest \<and> (q = [] \<or> q = [CHR 0x22]) \<and> c \<noteq> CHR 0x22"
  then obtain q c rest where "r = q @ c # rest" "q = [] \<or> q = [CHR 0x22]" "c \<noteq> CHR 0x22"
    by blast
  then show "boundary_at r \<noteq> None"
    by (auto simp: boundary_at_def Let_def)
qed

lemma boundary_here_iff:
  "boundary_here s \<longleftrightarrow> startsWith_ci s ''boundary='' \<and> boundary_at (drop 9 s) \<noteq> None"
proof
  have l9: "length ''boundary='' = 9" by simp
  {
  assume "boundary_here s"
  then obtain kw q c rest where s: "s = kw @ q @ c # rest" and kw: "map ascii_lower kw = ''boundary=''"
    and q: "q = [] \<or> q = [CHR 0x22]" and c: "c \<noteq> CHR 0x22"
    unfolding boundary_here_def by (elim exE conjE)
  have "length (map ascii_lower kw) = length ''boundary=''" using kw by (rule arg_cong)
  then have len: "length kw = 9" by simp
  have t: "take 9 s = kw" and d: "drop 9 s = q @ c # rest" using len by (simp_all add: s)
  have "\<exists>q' c' rest'. drop 9 s = q' @ c' # rest' \<and> (q' = [] \<or> q' = [CHR 0x22]) \<and> c' \<noteq> CHR 0x22"
    using d q c by (intro exI[of _ q] exI[of _ c] exI[of _ rest]) simp
  then have "boundary_at (drop 9 s) \<noteq> None"
    by (simp only: boundary_at_iff)
  moreover have "startsWith_ci s ''boundary=''"
    unfolding startsWith_ci_def l9 using t kw by simp
  ultimately show "startsWith_ci s ''boundary='' \<and> boundary_at (drop 9 s) \<noteq> None" by (rule conjI[rotated])
  }
  assume a: "startsWith_ci s ''boundary='' \<and> boundary_at (drop 9 s) \<noteq> None"
  then have "\<exists>q c rest. drop 9 s = q @ c # rest \<and> (q = [] \<or> q = [CHR 0x22]) \<and> c \<noteq> CHR 0x22"
    by (simp only: boundary_at_iff)
  then obtain q c rest where d: "drop 9 s = q @ c # rest" and q: "q = [] \<or> q = [CHR 0x22]" and c: "c \<noteq> CHR 0x22"
    by (elim exE conjE)
  have "s = take 9 s @ drop 9 s" by simp
  then have e: "s = take 9 s @ q @ c # rest" by (simp only: d)
  have m: "map ascii_lower (take 9 s) = ''boundary=''" using a unfolding startsWith_ci_def l9 by simp
  show "boundary_here s" unfolding boundary_here_def
    using e m q c by (intro exI[of _ "take 9 s"] exI[of _ q] exI[of _ c] exI[of _ rest] conjI)
qed

lemma not_boundary_here_Nil: "\<not> boundary_here []"
  by (simp add: boundary_here_iff startsWith_ci_def)

lemma find_boundary_Cons:
  "find_boundary (c # s) \<noteq> None \<longleftrightarrow> boundary_here (c # s) \<or> find_boundary s \<noteq> None"
  by (cases "boundary_at (drop 9 (c # s))") (simp_all add: boundary_here_iff)

lemma find_boundary_iff:
  "find_boundary ct \<noteq> None \<longleftrightarrow> (\<exists>pre t. ct = pre @ t \<and> boundary_here t)"
proof (induction ct)
  case Nil
  show ?case using not_boundary_here_Nil by simp
next
  case (Cons c s)
  have "(\<exists>pre t. c # s = pre @ t \<and> boundary_here t)
        \<longleftrightarrow> boundary_here (c # s) \<or> (\<exists>pre t. s = pre @ t \<and> boundary_here t)"
  proof
    assume "\<exists>pre t. c # s = pre @ t \<and> boundary_here t"
    then obtain pre t where e: "c # s = pre @ t" and b: "boundary_here t" by (elim exE conjE)
    show "boundary_here (c # s) \<or> (\<exists>pre t. s = pre @ t \<and> boundary_here t)"
    proof (cases pre)
      case Nil
      with e b show ?thesis by simp
    next
      case (Cons a pre')
      with e have "s = pre' @ t" by simp
      with b show ?thesis by (intro disjI2, rule_tac x = pre' in exI, rule_tac x = t in exI) simp
    qed
  next
    assume "boundary_here (c # s) \<or> (\<exists>pre t. s = pre @ t \<and> boundary_here t)"
    then show "\<exists>pre t. c # s = pre @ t \<and> boundary_here t"
    proof
      assume "boundary_here (c # s)"
      then show ?thesis by (rule_tac x = "[]" in exI, rule_tac x = "c # s" in exI) simp
    next
      assume "\<exists>pre t. s = pre @ t \<and> boundary_here t"
      then obtain pre t where "s = pre @ t" "boundary_here t" by (elim exE conjE)
      then show ?thesis by (rule_tac x = "c # pre" in exI, rule_tac x = t in exI) simp
    qed
  qed
  then show ?case using Cons.IH by (simp only: find_boundary_Cons)
qed

lemma has_boundary_param_alt:
  "has_boundary_param ct \<longleftrightarrow> (\<exists>pre t. ct = pre @ t \<and> boundary_here t)"
proof
  assume "has_boundary_param ct"
  then obtain pre kw q c rest where ct: "ct = pre @ kw @ q @ c # rest"
    and f: "map ascii_lower kw = ''boundary=''" "q = [] \<or> q = [CHR 0x22]" "c \<noteq> CHR 0x22"
    unfolding has_boundary_param_def by (elim exE conjE)
  have "boundary_here (kw @ q @ c # rest)"
    unfolding boundary_here_def
    by (rule exI[of _ kw], rule exI[of _ q], rule exI[of _ c], rule exI[of _ rest]) (simp add: f)
  with ct show "\<exists>pre t. ct = pre @ t \<and> boundary_here t"
    by (intro exI[of _ pre] exI[of _ "kw @ q @ c # rest"] conjI)
next
  assume "\<exists>pre t. ct = pre @ t \<and> boundary_here t"
  then obtain pre t where ct: "ct = pre @ t" and "boundary_here t" by (elim exE conjE)
  then obtain kw q c rest where t: "t = kw @ q @ c # rest"
    and f: "map ascii_lower kw = ''boundary=''" "q = [] \<or> q = [CHR 0x22]" "c \<noteq> CHR 0x22"
    unfolding boundary_here_def by (elim exE conjE)
  show "has_boundary_param ct"
    unfolding has_boundary_param_def ct t
    by (rule exI[of _ pre], rule exI[of _ kw], rule exI[of _ q], rule exI[of _ c], rule exI[of _ rest])
       (simp add: f)
qed

lemma find_boundary_None_iff: "find_boundary ct = None \<longleftrightarrow> \<not> has_boundary_param ct"
  unfolding has_boundary_param_alt find_boundary_iff[symmetric] by simp

lemma parseMHTML_errors: "parseMHTML h buffer = Inl e \<Longrightarrow> e = NoHeaderSection \<or> e = NoBoundary"
  by (simp add: parseMHTML_def split: option.splits)

lemma parseMHTML_NoHeaderSection:
  "parseMHTML h buffer = Inl NoHeaderSection \<longleftrightarrow> \<not> has_header_block buffer"
  using outerContentType_None_iff[of buffer]
  by (auto simp: parseMHTML_def split: option.splits)

lemma ex_value_swap:
  "(\<exists>ct. (\<exists>hdr rest. S hdr rest \<and> ct = V hdr) \<and> \<not> B ct) \<longleftrightarrow> (\<exists>hdr rest. S hdr rest \<and> \<not> B (V hdr))"
  by blast

lemma parseMHTML_NoBoundary:
  "parseMHTML h buffer = Inl NoBoundary \<longleftrightarrow>
     (\<exists>hdr rest. splits_at_blank_line buffer hdr rest
        \<and> \<not> has_boundary_param (value_or_empty (header_value hdr ''content-type'')))"
proof -
  have "parseMHTML h buffer = Inl NoBoundary \<longleftrightarrow>
          (\<exists>ct. outerContentType buffer = Some ct \<and> \<not> has_boundary_param ct)"
    by (auto simp: parseMHTML_def find_boundary_None_iff[symmetric] split: option.splits)
  then show ?thesis unfolding outerContentType_Some_iff by (simp only: ex_value_swap)
qed

lemma eval_lf:
  "parseMHTML plain_host container_lf = Inl NoHeaderSection"
  "parseMHTML plain_host container_lf_outer = Inl NoBoundary"
  "take 2 (split_lines_from [] container_lf)
     = [''Content-Type: multipart/related; boundary='' @ [CHR 0x22] @ ''XYZ'' @ [CHR 0x22], []]"
  "find_boundary (''multipart/related; boundary='' @ [CHR 0x22] @ ''XYZ'' @ [CHR 0x22]) = Some ''XYZ''"
  "map_sum id (map contentType) (parseMHTML plain_host container_late_blank)
     = Inr [''application/octet-stream'']"
  "indexOf container_late_blank ''--XYZ'' = Some 49"
  "indexOf container_late_blank CRLFCRLF = Some 65"
  by code_simp+

lemma eval_nb:
  "indexOf container_no_boundary CRLFCRLF = Some 31"
  "take 31 container_no_boundary = no_boundary_header"
  "header_value no_boundary_header ''content-type'' = Some ''multipart/related''"
  "find_boundary ''multipart/related'' = None"
  by code_simp+

text \<open>
  C3, as stated, fails, whether a blank line is any empty line or the four bytes
  CR LF CR LF that the parser looks for. A container whose lines end in a bare LF has a
  header block that an empty line ends, and its content type has a boundary parameter
  that can be parsed; the parser rejects it for a missing header section. When only the
  outer header ends in LF LF, the text up to the first CR LF CR LF counts as the header:
  the content type of the first part takes the place of that of the container and the
  parser rejects the container for a missing boundary; or, when the part has no content
  type, the parser accepts the container although no CR LF CR LF comes before the first
  boundary line.
\<close>

theorem lf_container_counterexample:
  "parseMHTML plain_host container_lf = Inl NoHeaderSection
   \<and> take 2 (split_lines_from [] container_lf)
       = [''Content-Type: multipart/related; boundary='' @ [CHR 0x22] @ ''XYZ'' @ [CHR 0x22], []]
   \<and> find_boundary (''multipart/related; boundary='' @ [CHR 0x22] @ ''XYZ'' @ [CHR 0x22]) = Some ''XYZ''
   \<and> parseMHTML plain_host container_lf_outer = Inl NoBoundary
   \<and> map_sum id (map contentType) (parseMHTML plain_host container_late_blank)
       = Inr [''application/octet-stream'']
   \<and> indexOf container_late_blank ''--XYZ'' = Some 49
   \<and> indexOf container_late_blank CRLFCRLF = Some 65"
  using eval_lf by (intro conjI)

text \<open>
  C3, amended. The parser fails exactly when the text holds no CR LF CR LF, or when the
  Content-Type header of the text before the first CR LF CR LF (the last header of that
  name, with its continuation lines joined by a space; the empty text when there is none)
  has no boundary parameter that can be parsed. The error is that of a missing header
  section exactly in the first case. The only errors are these two, and with either of
  them the conversion stops with that error and gives no document.
\<close>

theorem malformed_container_iff:
  "((\<exists>e. parseMHTML h buffer = Inl e) \<longleftrightarrow>
       \<not> has_header_block buffer
       \<or> (\<exists>hdr rest. splits_at_blank_line buffer hdr rest
             \<and> \<not> has_boundary_param (value_or_empty (header_value hdr ''content-type''))))
   \<and> (parseMHTML h buffer = Inl NoHeaderSection \<longleftrightarrow> \<not> has_header_block buffer)
   \<and> (\<forall>e. parseMHTML h buffer = Inl e \<longrightarrow>
          (e = NoHeaderSection \<or> e = NoBoundary) \<and> convert h buffer = Some (Inl e))"
proof (intro conjI allI impI)
  show "(\<exists>e. parseMHTML h buffer = Inl e) \<longleftrightarrow>
       \<not> has_header_block buffer
       \<or> (\<exists>hdr rest. splits_at_blank_line buffer hdr rest
             \<and> \<not> has_boundary_param (value_or_empty (header_value hdr ''content-type'')))"
  proof -
    have "(\<exists>e. parseMHTML h buffer = Inl e) \<longleftrightarrow>
            parseMHTML h buffer = Inl NoHeaderSection \<or> parseMHTML h buffer = Inl NoBoundary"
      using parseMHTML_errors[of h buffer] by auto
    then show ?thesis
      by (simp only: parseMHTML_NoHeaderSection parseMHTML_NoBoundary)
  qed
next
  show "parseMHTML h buffer = Inl NoHeaderSection \<longleftrightarrow> \<not> has_header_block buffer"
    by (rule parseMHTML_NoHeaderSection)
next
  fix e assume "parseMHTML h buffer = Inl e"
  then show "e = NoHeaderSection \<or> e = NoBoundary" by (rule parseMHTML_errors)
next
  fix e assume "parseMHTML h buffer = Inl e"
  then show "convert h buffer = Some (Inl e)" by (simp add: convert_def)
qed

lemma no_boundary_splits:
  "splits_at_blank_line container_no_boundary no_boundary_header (drop 35 container_no_boundary)"
  using indexOf_splits[OF eval_nb(1)] by (simp add: eval_nb)

theorem malformed_container_iff_witness:
  "splits_at_blank_line container_no_boundary no_boundary_header (drop 35 container_no_boundary)
   \<and> header_value no_boundary_header ''content-type'' = Some ''multipart/related''
   \<and> \<not> has_boundary_param ''multipart/related''
   \<and> parseMHTML plain_host container_no_boundary = Inl NoBoundary
   \<and> convert plain_host container_no_boundary = Some (Inl NoBoundary)"
proof -
  note T = malformed_container_iff[of plain_host container_no_boundary]
  have nb: "\<not> has_boundary_param ''multipart/related''"
    using eval_nb(4) by (rule iffD1[OF find_boundary_None_iff])
  then have nb': "\<not> has_boundary_param (value_or_empty (header_value no_boundary_header ''content-type''))"
    by (simp add: eval_nb value_or_empty_def)
  have "\<exists>hdr rest. splits_at_blank_line container_no_boundary hdr rest
             \<and> \<not> has_boundary_param (value_or_empty (header_value hdr ''content-type''))"
    by (rule exI[of _ no_boundary_header], rule exI[of _ "drop 35 container_no_boundary"],
        rule conjI[OF no_boundary_splits nb'])
  then have "\<exists>e. parseMHTML plain_host container_no_boundary = Inl e"
    by (rule iffD2[OF T[THEN conjunct1], OF disjI2])
  then obtain e where e: "parseMHTML plain_host container_no_boundary = Inl e" ..
  have hb: "has_header_block container_no_boundary"
    unfolding has_header_block_def
    using no_boundary_splits[unfolded splits_at_blank_line_def, THEN conjunct1]
    by (rule_tac x = no_boundary_header in exI, rule_tac x = "drop 35 container_no_boundary" in exI)
  have "e \<noteq> NoHeaderSection"
  proof
    assume "e = NoHeaderSection"
    with e have "parseMHTML plain_host container_no_boundary = Inl NoHeaderSection" by simp
    then have "\<not> has_header_block container_no_boundary"
      by (rule iffD1[OF T[THEN conjunct2, THEN conjunct1]])
    then show False using hb by (rule notE)
  qed
  moreover from T[THEN conjunct2, THEN conjunct2, rule_format, OF e]
  have "e = NoHeaderSection \<or> e = NoBoundary" and c: "convert plain_host container_no_boundary = Some (Inl e)"
    by (rule conjunct1, rule conjunct2)
  ultimately have "e = NoBoundary" by simp
  with e c have "parseMHTML plain_host container_no_boundary = Inl NoBoundary"
    and "convert plain_host container_no_boundary = Some (Inl NoBoundary)" by simp_all
  with no_boundary_splits eval_nb(3) nb show ?thesis by (intro conjI)
qed

section \<open>The root document\<close>

lemma js_sort_Nil_iff: "js_sort cmp xs = [] \<longleftrightarrow> xs = []"
proof (cases xs)
  case (Cons x xs')
  have "js_insert cmp x ys \<noteq> []" for ys by (cases ys) auto
  with Cons show ?thesis by simp
qed simp

lemma hd_js_insert:
  "hd (js_insert cmp x ys) = (if ys = [] \<or> cmp x (hd ys) \<le> 0 then x else hd ys)"
  by (cases ys) auto

lemma hd_js_sort_first_longest:
  assumes "xs \<noteq> []"
  shows "\<exists>pre post. xs = pre @ hd (js_sort (\<lambda>a b. int (length (buf b)) - int (length (buf a))) xs) # post
           \<and> (\<forall>p \<in> set pre. length (buf p) < length (buf (hd (js_sort (\<lambda>a b. int (length (buf b)) - int (length (buf a))) xs))))
           \<and> (\<forall>p \<in> set post. length (buf p) \<le> length (buf (hd (js_sort (\<lambda>a b. int (length (buf b)) - int (length (buf a))) xs))))"
  using assms
proof (induction xs)
  case Nil then show ?case by simp
next
  case (Cons x xs)
  let ?cmp = "\<lambda>a b. int (length (buf b)) - int (length (buf a))"
  show ?case
  proof (cases "xs = []")
    case True
    then show ?thesis by (intro exI[of _ "[]"]) simp
  next
    case False
    let ?r = "hd (js_sort ?cmp xs)"
    from Cons.IH[OF False] obtain pre post where
      dec: "xs = pre @ ?r # post"
      and pre: "\<forall>p \<in> set pre. length (buf p) < length (buf ?r)"
      and post: "\<forall>p \<in> set post. length (buf p) \<le> length (buf ?r)"
      by blast
    have ne: "js_sort ?cmp xs \<noteq> []" using False by (simp add: js_sort_Nil_iff)
    show ?thesis
    proof (cases "length (buf ?r) \<le> length (buf x)")
      case True
      then have hd: "hd (js_sort ?cmp (x # xs)) = x"
        using ne by (simp add: hd_js_insert)
      have "\<forall>p \<in> set xs. length (buf p) \<le> length (buf x)"
      proof
        fix p assume "p \<in> set xs"
        then have "p \<in> set pre \<or> p = ?r \<or> p \<in> set post"
          by (subst (asm) dec) auto
        then show "length (buf p) \<le> length (buf x)"
          using pre post True by (auto simp: le_trans less_imp_le dest!: bspec)
      qed
      then show ?thesis
        unfolding hd by (intro exI[of _ "[]"] exI[of _ xs]) simp
    next
      case False
      then have hd: "hd (js_sort ?cmp (x # xs)) = ?r"
        using ne by (simp add: hd_js_insert)
      have "x # xs = (x # pre) @ ?r # post" using dec by simp
      moreover have "\<forall>p \<in> set (x # pre). length (buf p) < length (buf ?r)"
        using pre False by auto
      ultimately show ?thesis
        unfolding hd using post by blast
    qed
  qed
qed

lemma selectRoot_cases:
  "selectRoot parts =
     (if filter isHtmlPart parts = [] then Inl NoHtmlPart
      else Inr (hd (js_sort (\<lambda>a b. int (length (buf b)) - int (length (buf a))) (filter isHtmlPart parts))))"
  by (cases "js_sort (\<lambda>a b. int (length (buf b)) - int (length (buf a))) (filter isHtmlPart parts)")
     (auto simp: selectRoot_def js_sort_Nil_iff)

text \<open>
  C4, as stated, fails: the root need not have the content type \<^verbatim>\<open>text/html\<close>. The filter
  takes every part whose content type starts with \<^verbatim>\<open>text/html\<close>, and the longest of them
  is the root.
\<close>

theorem root_content_type_counterexample:
  "selectRoot [mkPart ''text/html'' None None ''<p>a</p>'',
               mkPart ''text/html-sandboxed'' None None ''<p>bcd</p>'']
     = Inr (mkPart ''text/html-sandboxed'' None None ''<p>bcd</p>'')
   \<and> contentType (mkPart ''text/html-sandboxed'' None None ''<p>bcd</p>'') \<noteq> ''text/html''"
  by (simp add: selectRoot_def isHtmlPart_def startsWith_def mkPart_def)

text \<open>
  C4, amended. The root document is, among the parts whose content type starts with
  \<^verbatim>\<open>text/html\<close>, the one with the longest decoded body, and of several longest ones the
  first in the order of the file. When no part has such a content type, the choice fails
  and the conversion stops with the error of a missing root document.
\<close>

theorem root_is_first_longest_html:
  "(filter isHtmlPart parts = [] \<longrightarrow>
      selectRoot parts = Inl NoHtmlPart
      \<and> (parseMHTML h buffer = Inr parts \<longrightarrow> convert h buffer = Some (Inl NoHtmlPart)))
   \<and> (filter isHtmlPart parts \<noteq> [] \<longrightarrow>
        (\<exists>r pre post. selectRoot parts = Inr r \<and> filter isHtmlPart parts = pre @ r # post
           \<and> (\<forall>p \<in> set pre. length (buf p) < length (buf r))
           \<and> (\<forall>p \<in> set post. length (buf p) \<le> length (buf r))))"
proof (cases "filter isHtmlPart parts = []")
  case True
  then show ?thesis by (simp add: selectRoot_cases convert_def)
next
  case False
  from hd_js_sort_first_longest[OF False] obtain pre post where
    "filter isHtmlPart parts = pre @ hd (js_sort (\<lambda>a b. int (length (buf b)) - int (length (buf a))) (filter isHtmlPart parts)) # post"
    "\<forall>p \<in> set pre. length (buf p) < length (buf (hd (js_sort (\<lambda>a b. int (length (buf b)) - int (length (buf a))) (filter isHtmlPart parts))))"
    "\<forall>p \<in> set post. length (buf p) \<le> length (buf (hd (js_sort (\<lambda>a b. int (length (buf b)) - int (length (buf a))) (filter isHtmlPart parts))))"
    by blast
  then have "\<exists>r pre post. selectRoot parts = Inr r \<and> filter isHtmlPart parts = pre @ r # post
           \<and> (\<forall>p \<in> set pre. length (buf p) < length (buf r))
           \<and> (\<forall>p \<in> set post. length (buf p) \<le> length (buf r))"
    using False by (simp add: selectRoot_cases) blast
  with False show ?thesis by simp
qed

lemma eval_roots:
  "selectRoot [mkPart ''text/html'' None None ''<p>a</p>'',
               mkPart ''image/png'' None None ''0123456789'',
               mkPart ''text/html'' None None ''<p>b</p>'']
     = Inr (mkPart ''text/html'' None None ''<p>a</p>'')"
  "filter isHtmlPart [mkPart ''text/html'' None None ''<p>a</p>'',
               mkPart ''image/png'' None None ''0123456789'',
               mkPart ''text/html'' None None ''<p>b</p>'']
     = [mkPart ''text/html'' None None ''<p>a</p>'', mkPart ''text/html'' None None ''<p>b</p>'']"
  "parseMHTML plain_host container_bad_base64
     = Inr [\<lparr> headers = [(''content-type'', ''image/png''), (''content-transfer-encoding'', ''base64''),
                          (''content-id'', ''<img1>'')],
              contentType = ''image/png'', charset = ''utf-8'', contentLocation = None,
              contentId = Some ''img1'', buf = [], textDecoded = None \<rparr>]"
  "filter isHtmlPart [\<lparr> headers = [(''content-type'', ''image/png''), (''content-transfer-encoding'', ''base64''),
                          (''content-id'', ''<img1>'')],
              contentType = ''image/png'', charset = ''utf-8'', contentLocation = None,
              contentId = Some ''img1'', buf = [], textDecoded = None \<rparr>] = []"
  by code_simp+

theorem root_is_first_longest_html_witness:
  "selectRoot [mkPart ''text/html'' None None ''<p>a</p>'',
               mkPart ''image/png'' None None ''0123456789'',
               mkPart ''text/html'' None None ''<p>b</p>'']
     = Inr (mkPart ''text/html'' None None ''<p>a</p>'')
   \<and> convert plain_host container_bad_base64 = Some (Inl NoHtmlPart)"
  using root_is_first_longest_html[of "[mkPart ''text/html'' None None ''<p>a</p>'',
               mkPart ''image/png'' None None ''0123456789'',
               mkPart ''text/html'' None None ''<p>b</p>'']" plain_host "[]"]
    root_is_first_longest_html[of "[\<lparr> headers = [(''content-type'', ''image/png''), (''content-transfer-encoding'', ''base64''),
                          (''content-id'', ''<img1>'')],
              contentType = ''image/png'', charset = ''utf-8'', contentLocation = None,
              contentId = Some ''img1'', buf = [], textDecoded = None \<rparr>]" plain_host container_bad_base64]
    eval_roots
  by simp

section \<open>Transfer encodings\<close>











section \<open>Style sheets: the import rules\<close>

lemmas scan_defs = import_at_def import_target_def import_tail_def startsWith_ci_def
  ascii_lower_def is_space_def is_quote_def is_line_term_def Let_def char_of_def bit_iff_odd

lemma eval_no_space: "find_import css_no_space = None"
  by (simp add: css_no_space_def scan_defs)

text \<open>
  C6: the code leaves an import rule in place. In \<^verbatim>\<open>@import"a.css";\<close> the string follows the
  keyword without white space; the pattern of the loop asks for white space there, finds
  no rule, and the text comes back unchanged.
\<close>

theorem import_without_space_kept:
  "inlineCssImportsWithMap plain_host Map.empty css_no_space None = Some css_no_space"
  by (subst inlineCssImportsWithMap.simps) (simp add: eval_no_space)

lemma import_joined_after_drop:
  "inlineCssImportsWithMap plain_host Map.empty css_joined None = Some ''@import url(y.css);''"
  by (simp add: inlineCssImportsWithMap.simps css_joined_def scan_defs import_hit_def orElse_def)

lemma eval_cycle_scan:
  "find_import css_imports_b = Some (0, 19, ''cid:b'')"
  "find_import css_imports_a = Some (0, 19, ''cid:a'')"
  by (simp_all add: css_imports_a_def css_imports_b_def scan_defs)

lemma eval_cycle_hit:
  "import_hit plain_host (buildPartMap plain_host parts_cycle None) None ''cid:b''
     = Some (partValue plain_host (mkPart ''text/css'' None (Some ''b'') css_imports_a))"
  "import_hit plain_host (buildPartMap plain_host parts_cycle None) None ''cid:a''
     = Some (partValue plain_host (mkPart ''text/css'' None (Some ''a'') css_imports_b))"
  by (simp_all add: import_hit_def orElse_def stripQuotes_def unweird_def weirdScheme_def
        resolveAgainst_def buildPartMap_find parts_cycle_def example_defs is_quote_def)

lemma eval_cycle_text:
  "sheetText plain_host (partValue plain_host (mkPart ''text/css'' None (Some ''b'') css_imports_a))
     = css_imports_a"
  "sheetText plain_host (partValue plain_host (mkPart ''text/css'' None (Some ''a'') css_imports_b))
     = css_imports_b"
  "hitBase (partValue plain_host (mkPart ''text/css'' None (Some ''b'') css_imports_a)) None = None"
  "hitBase (partValue plain_host (mkPart ''text/css'' None (Some ''a'') css_imports_b)) None = None"
  by (simp_all add: sheetText_def hitBase_def truthy_def example_defs css_imports_a_def css_imports_b_def)

lemma cycle_no_result:
  assumes "inlineCssImportsWithMap h pm css base = Some y"
  shows "\<not> (h = plain_host \<and> pm = buildPartMap plain_host parts_cycle None \<and> base = None
        \<and> (css = css_imports_b \<or> css = css_imports_a))"
proof (rule inlineCssImportsWithMap.raw_induct[where P = "\<lambda>h pm css base y.
     \<not> (h = plain_host \<and> pm = buildPartMap plain_host parts_cycle None \<and> base = None
        \<and> (css = css_imports_b \<or> css = css_imports_a))", OF _ assms], goal_cases)
  case (1 f h pm css base y)
  note IH = "1"(1) and body = "1"(2)
  show ?case
  proof
    assume a: "h = plain_host \<and> pm = buildPartMap plain_host parts_cycle None \<and> base = None
        \<and> (css = css_imports_b \<or> css = css_imports_a)"
    then consider "css = css_imports_b" | "css = css_imports_a" by blast
    then show False
    proof cases
      case 1
      with a body obtain z where
        "f plain_host (buildPartMap plain_host parts_cycle None) css_imports_a None = Some z"
        by (auto simp: eval_cycle_scan eval_cycle_hit eval_cycle_text split: Option.bind_splits)
      then show False using IH by blast
    next
      case 2
      with a body obtain z where
        "f plain_host (buildPartMap plain_host parts_cycle None) css_imports_b None = Some z"
        by (auto simp: eval_cycle_scan eval_cycle_hit eval_cycle_text split: Option.bind_splits)
      then show False using IH by blast
    qed
  qed
qed

text \<open>
  C1, as stated, fails: the rewrite keeps no set of visited targets. On two style sheets
  that import each other it calls itself without end and returns nothing.
\<close>

theorem mutual_imports_counterexample:
  "inlineCssImportsWithMap plain_host (buildPartMap plain_host parts_cycle None)
     css_imports_b None = None"
proof (cases "inlineCssImportsWithMap plain_host (buildPartMap plain_host parts_cycle None)
     css_imports_b None")
  case None
  then show ?thesis .
next
  case (Some y)
  from cycle_no_result[OF this] show ?thesis by simp
qed

lemma imports_of_Some:
  "find_import css = Some (i, n, u) \<Longrightarrow> imports_of css = u # imports_of (drop (i + n) css)"
  by (subst imports_of.simps) simp

lemma imports_of_None: "find_import css = None \<Longrightarrow> imports_of css = []"
  by (subst imports_of.simps) simp

lemma targets_return_rest:
  assumes "targets_return h pm css base" and "find_import css = Some (i, n, u)"
  shows "targets_return h pm (drop (i + n) css) base"
  using assms(1) unfolding targets_return_def imports_of_Some[OF assms(2)] by simp

lemma imports_return_aux:
  "targets_return h pm css base \<longrightarrow> (\<exists>out. inlineCssImportsWithMap h pm css base = Some out)"
proof (induction css rule: length_induct)
  case (1 css)
  show ?case
  proof
    assume good: "targets_return h pm css base"
    show "\<exists>out. inlineCssImportsWithMap h pm css base = Some out"
    proof (cases "find_import css")
      case None
      then show ?thesis by (subst inlineCssImportsWithMap.simps) simp
    next
      case (Some m)
      obtain i n u where m: "m = (i, n, u)" by (cases m)
      with Some have fi: "find_import css = Some (i, n, u)" by simp
      then have len: "length (drop (i + n) css) < length css"
        using find_import_length[OF fi] by simp
      have sub: "imports_of css = u # imports_of (drop (i + n) css)"
        using fi by (rule imports_of_Some)
      have "targets_return h pm (drop (i + n) css) base"
        using good fi by (rule targets_return_rest)
      with "1.IH" len
      obtain rest where rest: "inlineCssImportsWithMap h pm (drop (i + n) css) base = Some rest"
        by blast
      show ?thesis
      proof (cases "import_hit h pm base u")
        case None
        then show ?thesis
          by (subst inlineCssImportsWithMap.simps) (simp add: fi rest)
      next
        case (Some e)
        then have "\<exists>out. inlineCssImportsWithMap h pm (sheetText h e) (hitBase e base) = Some out"
          using good unfolding targets_return_def sub by simp
        then obtain imported where
          "inlineCssImportsWithMap h pm (sheetText h e) (hitBase e base) = Some imported"
          by blast
        then show ?thesis
          by (subst inlineCssImportsWithMap.simps) (simp add: fi rest Some)
      qed
    qed
  qed
qed

lemma ranked_calls_return:
  assumes "import_ranked h pm S rank"
  shows "s \<in> S \<Longrightarrow> targets_return h pm (fst s) (snd s)"
proof (induction "rank s" arbitrary: s rule: less_induct)
  case less
  show ?case
    unfolding targets_return_def
  proof (intro allI impI)
    fix u e
    assume u: "u \<in> set (imports_of (fst s))" and hit: "import_hit h pm (snd s) u = Some e"
    let ?s' = "(sheetText h e, hitBase e (snd s))"
    have "import_call h pm s ?s'"
      unfolding import_call_def using u hit by blast
    with assms less.prems have in': "?s' \<in> S" and lt: "rank ?s' < rank s"
      unfolding import_ranked_def by blast+
    from less.hyps[OF lt in'] have "targets_return h pm (sheetText h e) (hitBase e (snd s))"
      by simp
    then show "\<exists>out. inlineCssImportsWithMap h pm (sheetText h e) (hitBase e (snd s)) = Some out"
      using imports_return_aux by blast
  qed
qed

lemma import_step:
  assumes "find_import css = Some (i, n, u)" and "import_hit h pm base u = Some e"
    and "inlineCssImportsWithMap h pm (sheetText h e) (hitBase e base) = Some imported"
    and "inlineCssImportsWithMap h pm (drop (i + n) css) base = Some rest"
  shows "inlineCssImportsWithMap h pm css base
           = Some (take i css @ inlineCssUrlsWithMap h imported (hitBase e base) pm @ rest)"
  by (subst inlineCssImportsWithMap.simps) (simp add: assms)

text \<open>
  C1, amended. The rewrite of the import rules returns on a style sheet and a base when
  the imports that it follows from there have no cycle. It follows them as the code
  resolves them: an import rule is resolved against the base of the text it stands in,
  and the text of the entry it resolves to is rewritten with the location of that entry
  as the base, or with the same base when the entry has no location. No cycle means that
  the calls can be ranked: in a set of calls that holds the first call and every call made
  from one of its members, each call is of lower rank than the call that makes it.
  Every import rule that resolves is expanded where it stands, whatever was expanded
  before: the output is the text before the rule, the rewritten text of the imported
  style sheet, and the rewrite of the text after the rule.
\<close>

theorem imports_return_when_ranked:
  assumes "import_ranked h pm S rank" and "(css, base) \<in> S"
  shows "(\<exists>out. inlineCssImportsWithMap h pm css base = Some out)
       \<and> (\<forall>i n u e. find_import css = Some (i, n, u) \<longrightarrow> import_hit h pm base u = Some e \<longrightarrow>
            (\<exists>imported rest.
               inlineCssImportsWithMap h pm (sheetText h e) (hitBase e base) = Some imported
               \<and> inlineCssImportsWithMap h pm (drop (i + n) css) base = Some rest
               \<and> inlineCssImportsWithMap h pm css base
                   = Some (take i css @ inlineCssUrlsWithMap h imported (hitBase e base) pm @ rest)))"
proof -
  have tr: "targets_return h pm css base"
    using ranked_calls_return[OF assms] by simp
  show ?thesis
  proof (intro conjI allI impI)
    show "\<exists>out. inlineCssImportsWithMap h pm css base = Some out"
      using tr imports_return_aux by blast
  next
    fix i n u e
    assume fi: "find_import css = Some (i, n, u)" and hit: "import_hit h pm base u = Some e"
    have "u \<in> set (imports_of css)" by (simp add: imports_of_Some[OF fi])
    with tr hit obtain imported where
      im: "inlineCssImportsWithMap h pm (sheetText h e) (hitBase e base) = Some imported"
      unfolding targets_return_def by blast
    have "targets_return h pm (drop (i + n) css) base"
      using tr fi by (rule targets_return_rest)
    then obtain rest where re: "inlineCssImportsWithMap h pm (drop (i + n) css) base = Some rest"
      using imports_return_aux by blast
    show "\<exists>imported rest.
               inlineCssImportsWithMap h pm (sheetText h e) (hitBase e base) = Some imported
               \<and> inlineCssImportsWithMap h pm (drop (i + n) css) base = Some rest
               \<and> inlineCssImportsWithMap h pm css base
                   = Some (take i css @ inlineCssUrlsWithMap h imported (hitBase e base) pm @ rest)"
      using im re import_step[OF fi hit im re] by blast
  qed
qed

lemma nk:
  "normKey ''http://x/theme/main.css'' = ''http://x/theme/main.css''"
  "normKey ''http://x/main.css'' = ''http://x/main.css''"
  "normKey ''theme/main.css'' = ''theme/main.css''"
  "normKey ''../main.css'' = ''../main.css''"
  by (simp_all add: normKey_def trim_def is_space_def)

lemma url_vals:
  "URL url_host ''theme/main.css'' ''http://x/index.html'' = Some ''http://x/theme/main.css''"
  "URL url_host ''../main.css'' ''http://x/theme/main.css'' = Some ''http://x/main.css''"
  "URL url_host ''http://x/theme/main.css'' ''http://x/index.html'' = Some ''http://x/theme/main.css''"
  "URL url_host ''http://x/main.css'' ''http://x/index.html'' = Some ''http://x/main.css''"
  by (simp_all add: url_host_def plain_host_def)

lemma resolve_vals:
  "resolveAgainst url_host (Some ''http://x/index.html'') ''theme/main.css'' = ''http://x/theme/main.css''"
  "resolveAgainst url_host (Some ''http://x/theme/main.css'') ''../main.css'' = ''http://x/main.css''"
  by (simp_all add: resolveAgainst_def startsWith_ci_def ascii_lower_def weirdScheme_def url_vals)

lemma theme_keys:
  "partKeys url_host (Some ''http://x/index.html'')
     (mkPart ''text/css'' (Some ''http://x/theme/main.css'') None css_theme)
     = [''http://x/theme/main.css'', ''http://x/theme/main.css'']"
  "partKeys url_host (Some ''http://x/index.html'')
     (mkPart ''text/css'' (Some ''http://x/main.css'') None css_chain_b)
     = [''http://x/main.css'', ''http://x/main.css'']"
  by (simp_all add: partKeys_def absKey_def cidKeys_def mkPart_def normKey_opt_def nk url_vals)

lemma theme_map:
  "buildPartMap url_host parts_theme (Some ''http://x/index.html'') ''http://x/theme/main.css''
     = Some (partValue url_host (mkPart ''text/css'' (Some ''http://x/theme/main.css'') None css_theme))"
  "buildPartMap url_host parts_theme (Some ''http://x/index.html'') ''http://x/main.css''
     = Some (partValue url_host (mkPart ''text/css'' (Some ''http://x/main.css'') None css_chain_b))"
  by (simp_all add: buildPartMap_find parts_theme_def registers_def theme_keys)

lemma eval_theme_hit:
  "import_hit url_host (buildPartMap url_host parts_theme (Some ''http://x/index.html''))
       (Some ''http://x/index.html'') ''theme/main.css''
     = Some (partValue url_host (mkPart ''text/css'' (Some ''http://x/theme/main.css'') None css_theme))"
  "import_hit url_host (buildPartMap url_host parts_theme (Some ''http://x/index.html''))
       (Some ''http://x/theme/main.css'') ''../main.css''
     = Some (partValue url_host (mkPart ''text/css'' (Some ''http://x/main.css'') None css_chain_b))"
  by (simp_all add: import_hit_def orElse_def stripQuotes_def is_quote_def unweird_def weirdScheme_def
        startsWith_ci_def ascii_lower_def resolve_vals nk theme_map)

lemma eval_theme_imports:
  "imports_of css_index = [''theme/main.css'']"
  "imports_of css_theme = [''../main.css'']"
  "imports_of css_chain_b = []"
  "imports_of css_twice = [''cid:b'', ''cid:b'']"
  by (subst imports_of.simps, simp add: css_index_def css_theme_def css_chain_b_def css_twice_def scan_defs,
      ((subst imports_of.simps, simp add: scan_defs)+)?)+

lemma eval_theme_text:
  "sheetText url_host (partValue url_host (mkPart ''text/css'' (Some ''http://x/theme/main.css'') None css_theme))
     = css_theme"
  "sheetText url_host (partValue url_host (mkPart ''text/css'' (Some ''http://x/main.css'') None css_chain_b))
     = css_chain_b"
  "hitBase (partValue url_host (mkPart ''text/css'' (Some ''http://x/theme/main.css'') None css_theme)) b
     = Some ''http://x/theme/main.css''"
  "hitBase (partValue url_host (mkPart ''text/css'' (Some ''http://x/main.css'') None css_chain_b)) b
     = Some ''http://x/main.css''"
  by (simp_all add: sheetText_def hitBase_def truthy_def partValue_def mkPart_def startsWith_ci_def
        ascii_lower_def url_host_def plain_host_def part.defs css_theme_def css_chain_b_def Let_def)

lemma css_distinct:
  "css_index \<noteq> css_theme" "css_index \<noteq> css_chain_b" "css_theme \<noteq> css_chain_b"
  "css_twice \<noteq> css_chain_b" "css_twice \<noteq> css_index" "css_chain_b \<noteq> css_index"
  "css_theme \<noteq> css_index" "css_chain_b \<noteq> css_theme" "css_chain_b \<noteq> css_twice"
  by (simp_all add: css_index_def css_theme_def css_chain_b_def css_twice_def)

lemma theme_ranked:
  "import_ranked url_host (buildPartMap url_host parts_theme (Some ''http://x/index.html''))
     (set theme_calls) call_rank"
  unfolding import_ranked_def
proof (intro allI impI)
  fix s s'
  assume s: "s \<in> set theme_calls"
    and c: "import_call url_host (buildPartMap url_host parts_theme (Some ''http://x/index.html'')) s s'"
  from c obtain u e where u: "u \<in> set (imports_of (fst s))"
    and hit: "import_hit url_host (buildPartMap url_host parts_theme (Some ''http://x/index.html''))
                (snd s) u = Some e"
    and s': "s' = (sheetText url_host e, hitBase e (snd s))"
    unfolding import_call_def by blast
  from s consider "s = (css_index, Some ''http://x/index.html'')"
    | "s = (css_theme, Some ''http://x/theme/main.css'')"
    | "s = (css_chain_b, Some ''http://x/main.css'')"
    unfolding theme_calls_def by auto
  then show "s' \<in> set theme_calls \<and> call_rank s' < call_rank s"
  proof cases
    case 1
    with u have "u = ''theme/main.css''" by (simp add: eval_theme_imports)
    with hit 1 have "e = partValue url_host (mkPart ''text/css'' (Some ''http://x/theme/main.css'') None css_theme)"
      by (simp add: eval_theme_hit)
    with s' have "s' = (css_theme, Some ''http://x/theme/main.css'')"
      by (simp add: eval_theme_text)
    with 1 show ?thesis
      by (simp add: theme_calls_def call_rank_def eval_theme_imports css_distinct)
  next
    case 2
    with u have "u = ''../main.css''" by (simp add: eval_theme_imports)
    with hit 2 have "e = partValue url_host (mkPart ''text/css'' (Some ''http://x/main.css'') None css_chain_b)"
      by (simp add: eval_theme_hit)
    with s' have "s' = (css_chain_b, Some ''http://x/main.css'')"
      by (simp add: eval_theme_text)
    with 2 show ?thesis
      by (simp add: theme_calls_def call_rank_def eval_theme_imports css_distinct)
  next
    case 3
    with u show ?thesis by (simp add: eval_theme_imports)
  qed
qed

lemma eval_chain_text:
  "sheetText plain_host (partValue plain_host (mkPart ''text/css'' None (Some ''a'') css_chain_a)) = css_chain_a"
  "sheetText plain_host (partValue plain_host (mkPart ''text/css'' None (Some ''b'') css_chain_b)) = css_chain_b"
  "hitBase (partValue plain_host (mkPart ''text/css'' None (Some ''b'') css_chain_b)) None = None"
  by (simp_all add: sheetText_def hitBase_def truthy_def example_defs css_chain_a_def css_chain_b_def)

lemma eval_chain_hit:
  "import_hit plain_host (buildPartMap plain_host parts_chain None) base ''cid:b''
     = Some (partValue plain_host (mkPart ''text/css'' None (Some ''b'') css_chain_b))"
  by (simp add: import_hit_def orElse_def stripQuotes_def unweird_def weirdScheme_def
        resolveAgainst_def buildPartMap_find parts_chain_def example_defs is_quote_def)

lemma eval_twice_scan:
  "find_import css_twice = Some (0, 19, ''cid:b'')"
  "drop 19 css_twice = css_imports_b"
  "find_import css_imports_b = Some (0, 19, ''cid:b'')"
  "find_import css_chain_b = None"
  "drop 19 css_imports_b = []"
  by (simp_all add: css_twice_def css_imports_b_def css_chain_b_def scan_defs)

lemma eval_twice:
  "inlineCssImportsWithMap plain_host (buildPartMap plain_host parts_chain None) css_twice None
     = Some (css_chain_b @ css_chain_b)"
proof -
  have b: "inlineCssImportsWithMap plain_host (buildPartMap plain_host parts_chain None) css_chain_b None
        = Some css_chain_b"
    by (subst inlineCssImportsWithMap.simps) (simp add: eval_twice_scan)
  have e: "inlineCssImportsWithMap plain_host (buildPartMap plain_host parts_chain None) [] None = Some []"
    by (subst inlineCssImportsWithMap.simps) simp
  have u: "inlineCssUrlsWithMap plain_host css_chain_b None (buildPartMap plain_host parts_chain None) = css_chain_b"
    by (simp add: inlineCssUrlsWithMap_def plain_host_def)
  have one: "inlineCssImportsWithMap plain_host (buildPartMap plain_host parts_chain None) css_imports_b None
        = Some css_chain_b"
    by (subst inlineCssImportsWithMap.simps)
       (simp add: eval_twice_scan eval_chain_hit eval_chain_text b e u)
  show ?thesis
    by (subst inlineCssImportsWithMap.simps)
       (simp add: eval_twice_scan eval_chain_hit eval_chain_text b one u)
qed

lemma twice_ranked:
  "import_ranked plain_host (buildPartMap plain_host parts_chain None) (set twice_calls) call_rank"
  unfolding import_ranked_def
proof (intro allI impI)
  fix s s'
  assume s: "s \<in> set twice_calls"
    and c: "import_call plain_host (buildPartMap plain_host parts_chain None) s s'"
  from c obtain u e where u: "u \<in> set (imports_of (fst s))"
    and hit: "import_hit plain_host (buildPartMap plain_host parts_chain None) (snd s) u = Some e"
    and s': "s' = (sheetText plain_host e, hitBase e (snd s))"
    unfolding import_call_def by blast
  from s consider "s = (css_twice, None)" | "s = (css_chain_b, None)"
    unfolding twice_calls_def by auto
  then show "s' \<in> set twice_calls \<and> call_rank s' < call_rank s"
  proof cases
    case 1
    with u have "u = ''cid:b''" by (simp add: eval_theme_imports)
    with hit have "e = partValue plain_host (mkPart ''text/css'' None (Some ''b'') css_chain_b)"
      by (simp add: eval_chain_hit)
    with s' 1 have "s' = (css_chain_b, None)"
      by (simp add: eval_chain_text)
    with 1 show ?thesis
      by (simp add: twice_calls_def call_rank_def eval_theme_imports css_distinct)
  next
    case 2
    with u show ?thesis by (simp add: eval_theme_imports)
  qed
qed

lemma eval_theme_scan:
  "find_import css_index = Some (0, 28, ''theme/main.css'')"
  "drop 28 css_index = []"
  "find_import css_theme = Some (0, 25, ''../main.css'')"
  "drop 25 css_theme = ''p{}''"
  "find_import ''p{}'' = None"
  by (simp_all add: css_index_def css_theme_def scan_defs)

lemma eval_theme:
  "inlineCssImportsWithMap url_host (buildPartMap url_host parts_theme (Some ''http://x/index.html''))
     css_index (Some ''http://x/index.html'') = Some (css_chain_b @ ''p{}'')"
proof -
  let ?pm = "buildPartMap url_host parts_theme (Some ''http://x/index.html'')"
  have m: "inlineCssImportsWithMap url_host ?pm css_chain_b (Some ''http://x/main.css'') = Some css_chain_b"
    by (subst inlineCssImportsWithMap.simps) (simp add: eval_twice_scan)
  have e: "inlineCssImportsWithMap url_host ?pm [] b = Some []" for b
    by (subst inlineCssImportsWithMap.simps) simp
  have p: "inlineCssImportsWithMap url_host ?pm ''p{}'' b = Some ''p{}''" for b
    by (subst inlineCssImportsWithMap.simps) (simp add: scan_defs)
  have u: "inlineCssUrlsWithMap url_host css b ?pm = css" for css b
    by (simp add: inlineCssUrlsWithMap_def url_host_def plain_host_def)
  have t: "inlineCssImportsWithMap url_host ?pm css_theme (Some ''http://x/theme/main.css'')
        = Some (css_chain_b @ ''p{}'')"
    by (subst inlineCssImportsWithMap.simps)
       (simp add: eval_theme_scan eval_theme_hit eval_theme_text m p u)
  show ?thesis
    by (subst inlineCssImportsWithMap.simps)
       (simp add: eval_theme_scan eval_theme_hit eval_theme_text t e u)
qed

text \<open>
  Two examples. A style sheet \<^verbatim>\<open>theme/main.css\<close> that imports \<^verbatim>\<open>../main.css\<close>: the rule
  resolves against the location of the style sheet it stands in, to the style sheet one
  level up, and the rewrite returns. And a style sheet that imports the same style sheet
  twice: the text is expanded at both rules.
\<close>

theorem imports_return_when_ranked_witness:
  "import_ranked url_host (buildPartMap url_host parts_theme (Some ''http://x/index.html''))
     (set theme_calls) call_rank
   \<and> (css_index, Some ''http://x/index.html'') \<in> set theme_calls
   \<and> inlineCssImportsWithMap url_host (buildPartMap url_host parts_theme (Some ''http://x/index.html''))
       css_index (Some ''http://x/index.html'') = Some (css_chain_b @ ''p{}'')
   \<and> import_ranked plain_host (buildPartMap plain_host parts_chain None) (set twice_calls) call_rank
   \<and> (css_twice, None) \<in> set twice_calls
   \<and> inlineCssImportsWithMap plain_host (buildPartMap plain_host parts_chain None) css_twice None
       = Some (css_chain_b @ css_chain_b)"
proof -
  have a: "(css_index, Some ''http://x/index.html'') \<in> set theme_calls"
    by (simp add: theme_calls_def)
  have b: "(css_twice, None) \<in> set twice_calls"
    by (simp add: twice_calls_def)
  from imports_return_when_ranked[OF theme_ranked a] imports_return_when_ranked[OF twice_ranked b]
  show ?thesis
    using theme_ranked twice_ranked a b eval_theme eval_twice by (intro conjI)
qed

section \<open>The document rewriter\<close>

























lemma left_alone_kept: "left_alone h docBase pm tg as \<Longrightarrow> reference_kept h docBase pm tg as"
  by (simp add: left_alone_def always_rewritten_def reference_kept_def)


















lemmas lookup_defs = ref_hit_def sheet_hit_def anchor_hit_def url_hit_def orElse_def unweird_def
  weirdScheme_def resolveAgainst_def strip_cid_def startsWith_def extractCidFromWeird_def
  stripQuotes_def is_quote_def
















lemma eval_data_key_hits:
  "ref_hit plain_host None (buildPartMap plain_host parts_data_key None) (unweird ''a.png'')
     = Some (partValue plain_host (mkPart ''image/png'' (Some ''a.png'') None ''A''))"
  "ref_hit plain_host None (buildPartMap plain_host parts_data_key None)
       (unweird ''data:image/png;base64,QQ=='')
     = Some (partValue plain_host (mkPart ''image/png'' (Some ''data:image/png;base64,QQ=='') None ''B''))"
  "dataURI (partValue plain_host (mkPart ''image/png'' (Some ''a.png'') None ''A''))
     = ''data:image/png;base64,QQ==''"
  "dataURI (partValue plain_host (mkPart ''image/png'' (Some ''data:image/png;base64,QQ=='') None ''B''))
     = ''data:image/png;base64,Qg==''"
  by (simp_all add: lookup_defs buildPartMap_find parts_data_key_def example_defs)

lemma img_only_passes:
  assumes "attr as ''style'' = None"
  shows "rewriteDom h docBase pm [Element ''img'' as []]
           = Some [Element ''img''
                (case (if attr as ''src'' = None then None
                       else ref_hit h docBase pm (unweird (attr_or_empty as ''src''))) of
                   None \<Rightarrow> as
                 | Some hit \<Rightarrow> set_attr as ''src'' (dataURI hit)) []]"
proof -
  have st: "attr (set_attr as ''src'' v) ''style'' = None" for v
    using assms by (induction as) (auto simp: attr_def)
  have others: "rewrite_nodes (do_stylesheet h docBase pm) [Element ''img'' bs []] = Some [Element ''img'' bs []]"
      "rewrite_nodes (do_style h docBase pm) [Element ''img'' bs []] = Some [Element ''img'' bs []]"
      "rewrite_nodes (do_script h docBase pm) [Element ''img'' bs []] = Some [Element ''img'' bs []]"
      "rewrite_nodes (do_icon h docBase pm) [Element ''img'' bs []] = Some [Element ''img'' bs []]"
      "rewrite_nodes (do_anchor pm) [Element ''img'' bs []] = Some [Element ''img'' bs []]"
      "rewrite_nodes (do_hint h) [Element ''img'' bs []] = Some [Element ''img'' bs []]"
      "fst (set_base_nodes False [Element ''img'' bs []]) = [Element ''img'' bs []]"
    for bs
    by (simp_all add: rewrite_nodes_def do_stylesheet_def do_style_def do_script_def do_icon_def
          do_anchor_def do_hint_def)
  have sa: "attr bs ''style'' = None \<Longrightarrow>
      rewrite_nodes (do_style_attr h docBase pm) [Element ''img'' bs []] = Some [Element ''img'' bs []]"
    for bs
    by (simp add: rewrite_nodes_def do_style_attr_def)
  show ?thesis
  proof (cases "if attr as ''src'' = None then None
                else ref_hit h docBase pm (unweird (attr_or_empty as ''src''))")
    case None
    then have "rewrite_nodes (do_img h docBase pm) [Element ''img'' as []] = Some [Element ''img'' as []]"
      by (auto simp: rewrite_nodes_def do_img_def split: if_splits)
    then show ?thesis
      by (simp add: rewriteDom_def others sa assms None)
  next
    case (Some hit)
    then have "rewrite_nodes (do_img h docBase pm) [Element ''img'' as []]
                 = Some [Element ''img'' (set_attr as ''src'' (dataURI hit)) []]"
      by (auto simp: rewrite_nodes_def do_img_def split: if_splits)
    then show ?thesis
      by (simp add: rewriteDom_def others sa assms st Some)
  qed
qed

text \<open>
  C9: the code changes a document on a second pass although the document holds only
  \<^verbatim>\<open>data:\<close> references. The loop over the images looks a \<^verbatim>\<open>data:\<close> URI up like any other
  reference (the loop over \<^verbatim>\<open>url(...)\<close> skips it); when a part has that URI as its
  Content-Location, the second pass puts the data URI of that part in its place.
\<close>

theorem second_pass_changes_data_src:
  "rewriteDom plain_host None (buildPartMap plain_host parts_data_key None) doc_img_a
     = Some doc_img_first
   \<and> rewriteDom plain_host None (buildPartMap plain_host parts_data_key None) doc_img_first
     = Some doc_img_second
   \<and> doc_img_first \<noteq> doc_img_second"
  by (simp add: doc_img_a_def doc_img_first_def doc_img_second_def img_only_passes attr_def
        do_img_def attr_or_empty_def eval_data_key_hits)

end
